theory Spec2Isabelle
  imports Main
begin

section \<open>Grid engine\<close>

text \<open>
  The constants of the Go package \<^verbatim>\<open>game\<close>.  Cells, marks, row and column indices are Go
  \<^verbatim>\<open>int\<close>s; no arithmetic on them leaves the range of the 6 x 7 grid by more than one
  step, so they are modelled as unbounded integers.
\<close>

abbreviation Columns :: int where "Columns \<equiv> 7"
abbreviation Rows :: int where "Rows \<equiv> 6"

abbreviation CellEmpty :: int where "CellEmpty \<equiv> 0"
abbreviation CellP1 :: int where "CellP1 \<equiv> 1"
abbreviation CellP2 :: int where "CellP2 \<equiv> 2"

datatype error = ErrColumnFull | ErrInvalidTurn | ErrInvalidCol | ErrGameFinished

text \<open>
  \<^verbatim>\<open>type Board [Rows][Columns]int\<close>: a list of rows, row 0 on top.  The Go array type fixes
  the dimensions; \<open>wf_Board\<close> states them for a list of lists.
\<close>

type_synonym Board = "int list list"

definition wf_Board :: "Board \<Rightarrow> bool" where
  "wf_Board b \<longleftrightarrow> length b = nat Rows \<and> list_all (\<lambda>r. length r = nat Columns) b"

text \<open>The zero value of \<^verbatim>\<open>Board\<close>: every cell is \<open>CellEmpty\<close>.\<close>

definition ZeroBoard :: Board where
  "ZeroBoard = replicate (nat Rows) (replicate (nat Columns) CellEmpty)"

text \<open>\<^verbatim>\<open>board[r][c]\<close> and \<^verbatim>\<open>board[r][c] = v\<close>; every use in the source is guarded to be in range.\<close>

definition cell :: "Board \<Rightarrow> int \<Rightarrow> int \<Rightarrow> int" where
  "cell b r c = b ! nat r ! nat c"

definition set_cell :: "Board \<Rightarrow> int \<Rightarrow> int \<Rightarrow> int \<Rightarrow> Board" where
  "set_cell b r c v = b[nat r := (b ! nat r)[nat c := v]]"

record MoveResult =
  Board :: Board
  Winner :: int
  IsDraw :: bool
  Winning :: "(int \<times> int) list"

text \<open>\<^verbatim>\<open>MoveResult{}\<close>, the value returned beside an error.\<close>

definition ZeroMoveResult :: MoveResult where
  "ZeroMoveResult = \<lparr>MoveResult.Board = ZeroBoard, Winner = 0, IsDraw = False, Winning = []\<rparr>"

text \<open>
  The closure \<^verbatim>\<open>check\<close> of \<^verbatim>\<open>winningCoords\<close>: starting at \<open>(r, c)\<close> it appends cells that hold
  \<open>player\<close> and steps by \<open>(+dx, +dy)\<close> until it leaves the grid or meets another cell.
  The captured slice \<^verbatim>\<open>coords\<close> is passed in and returned.  \<^verbatim>\<open>winningCoords\<close> is only called
  with the four entries of \<^verbatim>\<open>directions\<close>; with \<open>dx = dy = 0\<close> the Go loop would not advance,
  and the model stops there instead (the last conjunct of the guard).
\<close>

function check :: "Board \<Rightarrow> int \<Rightarrow> int \<Rightarrow> int \<Rightarrow> int \<Rightarrow> int \<Rightarrow> (int \<times> int) list \<Rightarrow> (int \<times> int) list" where
  "check board player dx dy r c coords =
     (if r \<ge> 0 \<and> r < Rows \<and> c \<ge> 0 \<and> c < Columns \<and> \<not> (dx = 0 \<and> dy = 0) then
        if cell board r c \<noteq> player then coords
        else check board player dx dy (r + dx) (c + dy) (coords @ [(r, c)])
      else coords)"
  by pat_completeness auto
termination
  by (relation "measure (\<lambda>(board, player, dx, dy, r, c, coords).
        nat (if dx > 0 then Rows - r else if dx < 0 then r + 1
             else if dy > 0 then Columns - c else c + 1))") auto

declare check.simps [simp del]

text \<open>
  \<^verbatim>\<open>winningCoords\<close>: both calls of \<^verbatim>\<open>check\<close> share the closure, so the second one, started at
  \<open>(row - dx, col - dy)\<close>, also steps by \<open>(+dx, +dy)\<close>.
\<close>

definition winningCoords :: "Board \<Rightarrow> int \<Rightarrow> int \<Rightarrow> int \<Rightarrow> int \<Rightarrow> int \<Rightarrow> (int \<times> int) list" where
  "winningCoords board row col player dx dy =
     (let coords = [(row, col)];
          coords = check board player dx dy (row + dx) (col + dy) coords;
          coords = check board player dx dy (row - dx) (col - dy) coords
      in if length coords \<ge> 4 then coords else [])"

abbreviation directions :: "(int \<times> int) list" where
  "directions \<equiv> [(1, 0), (0, 1), (1, 1), (1, -1)]"

text \<open>The draw loop of \<^verbatim>\<open>evaluate\<close>, from column \<open>c\<close> on.\<close>

function isDraw_loop :: "Board \<Rightarrow> int \<Rightarrow> bool" where
  "isDraw_loop board c =
     (if c < Columns then
        if cell board 0 c = CellEmpty then False else isDraw_loop board (c + 1)
      else True)"
  by pat_completeness auto
termination
  by (relation "measure (\<lambda>(board, c). nat (Columns - c))") auto

declare isDraw_loop.simps [simp del]

text \<open>The direction loop of \<^verbatim>\<open>evaluate\<close>, over the directions not yet tried.\<close>

fun evaluate_dirs :: "Board \<Rightarrow> int \<Rightarrow> int \<Rightarrow> int \<Rightarrow> (int \<times> int) list \<Rightarrow> MoveResult" where
  "evaluate_dirs board row col player [] =
     \<lparr>MoveResult.Board = board, Winner = 0, IsDraw = isDraw_loop board 0, Winning = []\<rparr>"
| "evaluate_dirs board row col player (d # ds) =
     (let coords = winningCoords board row col player (fst d) (snd d)
      in if length coords \<ge> 4
         then \<lparr>MoveResult.Board = board, Winner = player, IsDraw = False, Winning = coords\<rparr>
         else evaluate_dirs board row col player ds)"

definition evaluate :: "Board \<Rightarrow> int \<Rightarrow> int \<Rightarrow> int \<Rightarrow> MoveResult" where
  "evaluate board row col player = evaluate_dirs board row col player directions"

text \<open>
  \<^verbatim>\<open>func (b *Board) ApplyMove\<close> has a pointer receiver and writes the mark into \<^verbatim>\<open>*b\<close>.  The
  model returns the receiver after the call, then the two Go results.  \<open>ApplyMove_loop\<close> is
  the row loop, from \<open>row\<close> upwards.
\<close>

function ApplyMove_loop :: "Board \<Rightarrow> int \<Rightarrow> int \<Rightarrow> int \<Rightarrow> Board \<times> MoveResult \<times> error option" where
  "ApplyMove_loop b col player row =
     (if row \<ge> 0 then
        if cell b row col = CellEmpty then
          (let b' = set_cell b row col player
           in (b', evaluate b' row col player, None))
        else ApplyMove_loop b col player (row - 1)
      else (b, ZeroMoveResult, Some ErrColumnFull))"
  by pat_completeness auto
termination
  by (relation "measure (\<lambda>(b, col, player, row). nat (row + 1))") auto

declare ApplyMove_loop.simps [simp del]

definition ApplyMove :: "Board \<Rightarrow> int \<Rightarrow> int \<Rightarrow> Board \<times> MoveResult \<times> error option" where
  "ApplyMove b col player =
     (if col < 0 \<or> col \<ge> Columns then (b, ZeroMoveResult, Some ErrInvalidCol)
      else ApplyMove_loop b col player (Rows - 1))"

text \<open>\<^verbatim>\<open>CopyBoard\<close>: a zero board filled cell by cell.\<close>

definition CopyBoard :: "Board \<Rightarrow> Board" where
  "CopyBoard src =
     fold (\<lambda>r dest. fold (\<lambda>c dest. set_cell dest r c (cell src r c)) [0..Columns - 1] dest)
       [0..Rows - 1] ZeroBoard"

section \<open>Heuristic opponent\<close>

record Bot =
  Player :: int

definition NewBot :: "int \<Rightarrow> Bot" where
  "NewBot player = \<lparr>Player = player\<rparr>"

definition canPlay :: "Board \<Rightarrow> int \<Rightarrow> bool" where
  "canPlay board col \<longleftrightarrow> cell board 0 col = CellEmpty"

text \<open>
  \<^verbatim>\<open>findImmediate\<close>, from column \<open>col\<close> on.  \<^verbatim>\<open>res, _ := tmp.ApplyMove(col, player)\<close> drops
  the error and the mutated copy.
\<close>

function findImmediate_loop :: "Board \<Rightarrow> int \<Rightarrow> int \<Rightarrow> int \<times> bool" where
  "findImmediate_loop board player col =
     (if col < Columns then
        if \<not> canPlay board col then findImmediate_loop board player (col + 1)
        else
          (let tmp = CopyBoard board;
               res = fst (snd (ApplyMove tmp col player))
           in if Winner res = player then (col, True)
              else findImmediate_loop board player (col + 1))
      else (-1, False))"
  by pat_completeness auto
termination
  by (relation "measure (\<lambda>(board, player, col). nat (Columns - col))") auto

declare findImmediate_loop.simps [simp del]

definition findImmediate :: "Board \<Rightarrow> int \<Rightarrow> int \<times> bool" where
  "findImmediate board player = findImmediate_loop board player 0"

abbreviation preferred :: "int list" where
  "preferred \<equiv> [3, 2, 4, 1, 5, 0, 6]"

text \<open>The loop over \<^verbatim>\<open>preferred\<close>: the first column that can be played, if any.\<close>

fun first_playable :: "Board \<Rightarrow> int list \<Rightarrow> int option" where
  "first_playable board [] = None"
| "first_playable board (col # cols) =
     (if canPlay board col then Some col else first_playable board cols)"

text \<open>The fallback loop of \<^verbatim>\<open>ChooseMove\<close>, from column \<open>col\<close> on; it ends in \<^verbatim>\<open>return 0\<close>.\<close>

function fallback_loop :: "Board \<Rightarrow> int \<Rightarrow> int" where
  "fallback_loop board col =
     (if col < Columns then
        if canPlay board col then col else fallback_loop board (col + 1)
      else 0)"
  by pat_completeness auto
termination
  by (relation "measure (\<lambda>(board, col). nat (Columns - col))") auto

declare fallback_loop.simps [simp del]

text \<open>
  \<^verbatim>\<open>ChooseMove\<close>.  The call \<^verbatim>\<open>rand.Seed\<close> at its head touches the global generator only; no
  random number is drawn.  \<open>opponent_of\<close> is the local \<^verbatim>\<open>opponent\<close>: \<open>CellP1\<close>, or \<open>CellP2\<close> when
  the bot itself plays \<open>CellP1\<close>.
\<close>

definition opponent_of :: "Bot \<Rightarrow> int" where
  "opponent_of b = (if Player b = CellP1 then CellP2 else CellP1)"

definition ChooseMove :: "Bot \<Rightarrow> Board \<Rightarrow> int" where
  "ChooseMove b board =
     (case findImmediate board (Player b) of
        (move, True) \<Rightarrow> move
      | (_, False) \<Rightarrow>
          (let opponent = opponent_of b
           in case findImmediate board opponent of
                (move, True) \<Rightarrow> move
              | (_, False) \<Rightarrow>
                  (case first_playable board preferred of
                     Some col \<Rightarrow> col
                   | None \<Rightarrow> fallback_loop board 0)))"

section \<open>Session registry\<close>

text \<open>
  A \<^verbatim>\<open>time.Time\<close> is counted in nanoseconds from the zero \<^verbatim>\<open>time.Time\<close>, a
  \<^verbatim>\<open>time.Duration\<close> is a 64-bit count of nanoseconds, and \<^verbatim>\<open>Time.Sub\<close> saturates at its
  bounds.  Every reading of \<^verbatim>\<open>time.Now()\<close> and the string drawn by \<^verbatim>\<open>uuid.NewString()\<close>
  are arguments of the operation that makes the call.
\<close>

type_synonym Time = int
type_synonym Duration = int

abbreviation minDuration :: Duration where "minDuration \<equiv> - (2 ^ 63)"
abbreviation maxDuration :: Duration where "maxDuration \<equiv> 2 ^ 63 - 1"

definition Sub :: "Time \<Rightarrow> Time \<Rightarrow> Duration" where
  "Sub t u = max minDuration (min maxDuration (t - u))"

abbreviation StatusWaiting :: string where "StatusWaiting \<equiv> ''waiting''"
abbreviation StatusActive :: string where "StatusActive \<equiv> ''active''"
abbreviation StatusFinished :: string where "StatusFinished \<equiv> ''finished''"

record Player =
  Username :: string
  Slot :: int
  IsBot :: bool

text \<open>
  \<^verbatim>\<open>Players map[string]*Player\<close> is a map; a \<^verbatim>\<open>Player\<close> is never written after it is
  made, so the pointers are replaced by the values.  \<^verbatim>\<open>Winner\<close> is a Go string: the
  empty string is the absent winner.
\<close>

record GameState =
  ID :: string
  Board :: Board
  Status :: string
  Winner :: string
  StartedAt :: Time
  EndedAt :: Time
  Turn :: int
  LastMoveAt :: Time
  Players :: "string \<rightharpoonup> Player"
  Bot :: "Bot option"

text \<open>
  The registry.  The lock makes every operation atomic, so an operation is a function
  from the state before to the state after.  \<^verbatim>\<open>games\<close> holds the sessions themselves
  in place of pointers to them.  The callback \<^verbatim>\<open>onFinish\<close> is kept as the flag "a
  callback is installed"; \<open>onFinishCalls\<close> counts, per session key, the statements
  \<^verbatim>\<open>go m.onFinish(g)\<close> executed so far.
\<close>

record Manager =
  waiting :: "Player option"
  games :: "string \<rightharpoonup> GameState"
  userToGame :: "string \<rightharpoonup> string"
  reconnectAfter :: Duration
  onFinish :: bool
  onFinishCalls :: "string \<Rightarrow> nat"

record Move =
  Username :: string
  GameID :: string
  Column :: int

definition NewManager :: "Duration \<Rightarrow> bool \<Rightarrow> Manager" where
  "NewManager reconnectWindow onFinish' =
     \<lparr>waiting = None, games = Map.empty, userToGame = Map.empty,
      reconnectAfter = reconnectWindow, onFinish = onFinish',
      onFinishCalls = (\<lambda>_. 0)\<rparr>"

text \<open>\<^verbatim>\<open>go m.onFinish(game)\<close> under \<^verbatim>\<open>if m.onFinish != nil\<close>, for the session stored under \<open>key\<close>.\<close>

definition fire_onFinish :: "Manager \<Rightarrow> string \<Rightarrow> Manager" where
  "fire_onFinish m key =
     (if onFinish m then m\<lparr>onFinishCalls := (onFinishCalls m)(key := Suc (onFinishCalls m key))\<rparr>
      else m)"

text \<open>
  The lookup that opens \<^verbatim>\<open>AssignPlayer\<close> and \<^verbatim>\<open>StartBotGame\<close>: the unfinished session the
  identity index gives for \<open>username\<close>, with its key.
\<close>

definition unfinished_game :: "Manager \<Rightarrow> string \<Rightarrow> (string \<times> GameState) option" where
  "unfinished_game m username =
     (case userToGame m username of
        None \<Rightarrow> None
      | Some gid \<Rightarrow>
          (case games m gid of
             None \<Rightarrow> None
           | Some g \<Rightarrow> if Status g \<noteq> StatusFinished then Some (gid, g) else None))"

text \<open>
  \<^verbatim>\<open>AssignPlayer\<close>.  In the map literal of \<^verbatim>\<open>Players\<close> the waiting player is stored first
  and the new one second, so the second entry stands when both keys are equal.
\<close>

definition AssignPlayer ::
  "Manager \<Rightarrow> string \<Rightarrow> Time \<Rightarrow> Time \<Rightarrow> string \<Rightarrow> (GameState option \<times> Player option \<times> bool) \<times> Manager" where
  "AssignPlayer m newID now1 now2 username =
     (case unfinished_game m username of
        Some (gid, g) \<Rightarrow> ((Some g, Players g username, False), m)
      | None \<Rightarrow>
          (let player = \<lparr>Player.Username = username, Slot = CellP1, IsBot = False\<rparr>
           in case waiting m of
                None \<Rightarrow> ((None, Some player, True), m\<lparr>waiting := Some player\<rparr>)
              | Some opponent \<Rightarrow>
                  (let game =
                         \<lparr>ID = newID, GameState.Board = ZeroBoard, Status = StatusActive,
                          GameState.Winner = [], StartedAt = now1, EndedAt = 0,
                          Turn = CellP1, LastMoveAt = now2,
                          Players = [Player.Username opponent \<mapsto> opponent,
                                     username \<mapsto> \<lparr>Player.Username = username, Slot = CellP2, IsBot = False\<rparr>],
                          Bot = None\<rparr>;
                       m1 = m\<lparr>waiting := None\<rparr>;
                       m2 = m1\<lparr>games := (games m1)(ID game \<mapsto> game)\<rparr>;
                       m3 = m2\<lparr>userToGame := (userToGame m2)(username \<mapsto> ID game)\<rparr>;
                       m4 = m3\<lparr>userToGame := (userToGame m3)(Player.Username opponent \<mapsto> ID game)\<rparr>
                   in ((Some game, Players game username, False), m4))))"

definition StartBotGame :: "Manager \<Rightarrow> string \<Rightarrow> Time \<Rightarrow> Time \<Rightarrow> string \<Rightarrow> GameState \<times> Manager" where
  "StartBotGame m newID now1 now2 human =
     (case unfinished_game m human of
        Some (gid, g) \<Rightarrow> (g, m)
      | None \<Rightarrow>
          (let humanPlayer = \<lparr>Player.Username = human, Slot = CellP1, IsBot = False\<rparr>;
               bot = NewBot CellP2;
               game =
                 \<lparr>ID = newID, GameState.Board = ZeroBoard, Status = StatusActive,
                  GameState.Winner = [], StartedAt = now1, EndedAt = 0,
                  Turn = CellP1, LastMoveAt = now2,
                  Players = [human \<mapsto> humanPlayer,
                             ''bot'' \<mapsto> \<lparr>Player.Username = ''bot'', Slot = CellP2, IsBot = True\<rparr>],
                  Bot = Some bot\<rparr>;
               m1 = m\<lparr>games := (games m)(ID game \<mapsto> game)\<rparr>;
               m2 = m1\<lparr>userToGame := (userToGame m1)(human \<mapsto> ID game)\<rparr>
           in (game, m2)))"

text \<open>
  \<^verbatim>\<open>HandleMove\<close>.  \<open>now1\<close> is read for \<^verbatim>\<open>LastMoveAt\<close>, \<open>now2\<close> for \<^verbatim>\<open>EndedAt\<close>.  The call
  \<^verbatim>\<open>game.Board.ApplyMove\<close> works on the grid of the stored session, so the session holds
  the receiver as \<open>ApplyMove\<close> leaves it, whatever the call returns.
\<close>

definition HandleMove ::
  "Manager \<Rightarrow> Time \<Rightarrow> Time \<Rightarrow> Move \<Rightarrow> (MoveResult \<times> GameState option \<times> error option) \<times> Manager" where
  "HandleMove m now1 now2 move =
     (case games m (GameID move) of
        None \<Rightarrow> ((ZeroMoveResult, None, Some ErrInvalidTurn), m)
      | Some game \<Rightarrow>
          if Status game = StatusFinished then ((ZeroMoveResult, Some game, Some ErrGameFinished), m)
          else
            (case Players game (Move.Username move) of
               None \<Rightarrow> ((ZeroMoveResult, Some game, Some ErrInvalidTurn), m)
             | Some player \<Rightarrow>
                 if Turn game \<noteq> Slot player then ((ZeroMoveResult, Some game, Some ErrInvalidTurn), m)
                 else
                   (case ApplyMove (GameState.Board game) (Column move) (Slot player) of
                      (b', res, err) \<Rightarrow>
                        (let game = game\<lparr>GameState.Board := b'\<rparr>
                         in case err of
                              Some e \<Rightarrow>
                                ((ZeroMoveResult, Some game, Some e),
                                 m\<lparr>games := (games m)(GameID move \<mapsto> game)\<rparr>)
                            | None \<Rightarrow>
                                (let game = game\<lparr>LastMoveAt := now1\<rparr>
                                 in if MoveResult.Winner res \<noteq> 0 then
                                      (let game = game\<lparr>Status := StatusFinished,
                                                        GameState.Winner := Move.Username move,
                                                        EndedAt := now2\<rparr>
                                       in ((res, Some game, None),
                                           fire_onFinish (m\<lparr>games := (games m)(GameID move \<mapsto> game)\<rparr>)
                                             (GameID move)))
                                    else if IsDraw res then
                                      (let game = game\<lparr>Status := StatusFinished, EndedAt := now2\<rparr>
                                       in ((res, Some game, None),
                                           fire_onFinish (m\<lparr>games := (games m)(GameID move \<mapsto> game)\<rparr>)
                                             (GameID move)))
                                    else
                                      (let game = game\<lparr>Turn := (if Turn game = CellP1 then CellP2 else CellP1)\<rparr>
                                       in ((res, Some game, None),
                                           m\<lparr>games := (games m)(GameID move \<mapsto> game)\<rparr>)))))))"

definition Abandon :: "Manager \<Rightarrow> string \<Rightarrow> Manager" where
  "Abandon m username =
     (let m1 = m\<lparr>userToGame := (userToGame m)(username := None)\<rparr>
      in case waiting m1 of
           None \<Rightarrow> m1
         | Some w \<Rightarrow> if Player.Username w = username then m1\<lparr>waiting := None\<rparr> else m1)"

definition MarkDisconnected :: "Manager \<Rightarrow> Time \<Rightarrow> string \<Rightarrow> Manager" where
  "MarkDisconnected m now username =
     (case userToGame m username of
        None \<Rightarrow> m
      | Some gid \<Rightarrow>
          (case games m gid of
             None \<Rightarrow> m
           | Some g \<Rightarrow> m\<lparr>games := (games m)(gid \<mapsto> g\<lparr>LastMoveAt := now\<rparr>)\<rparr>))"

text \<open>
  \<^verbatim>\<open>findRemainingPlayer\<close> ranges over the map \<^verbatim>\<open>g.Players\<close>, in an order Go leaves open.
  The order of the visit is the argument \<open>names\<close>, a list of the keys of the map; a name
  that is not a key is passed over.
\<close>

fun findRemainingPlayer :: "string list \<Rightarrow> GameState \<Rightarrow> string" where
  "findRemainingPlayer [] g = ''bot''"
| "findRemainingPlayer (name # names) g =
     (case Players g name of
        None \<Rightarrow> findRemainingPlayer names g
      | Some p \<Rightarrow> if IsBot p then findRemainingPlayer names g else name)"

text \<open>The test of the loop of \<^verbatim>\<open>SweepDisconnects\<close> and its body, for one session.\<close>

definition stale :: "Manager \<Rightarrow> Time \<Rightarrow> GameState \<Rightarrow> bool" where
  "stale m now g \<longleftrightarrow> Status g \<noteq> StatusFinished \<and> Sub now (LastMoveAt g) > reconnectAfter m"

definition forfeit :: "Time \<Rightarrow> string list \<Rightarrow> GameState \<Rightarrow> GameState" where
  "forfeit now names g =
     g\<lparr>Status := StatusFinished, GameState.Winner := findRemainingPlayer names g, EndedAt := now\<rparr>"

text \<open>
  \<^verbatim>\<open>SweepDisconnects\<close>.  The loop visits every key of \<^verbatim>\<open>m.games\<close> once and its body
  touches the visited session only, so the state after it is given key by key.
  \<open>visit id\<close> is the order in which the players of the session under \<open>id\<close> are ranged
  over.
\<close>

definition SweepDisconnects :: "Manager \<Rightarrow> Time \<Rightarrow> (string \<Rightarrow> string list) \<Rightarrow> Manager" where
  "SweepDisconnects m now visit =
     m\<lparr>games := (\<lambda>id. case games m id of
                       None \<Rightarrow> None
                     | Some g \<Rightarrow> if stale m now g then Some (forfeit now (visit id) g) else Some g),
       onFinishCalls := (\<lambda>id. case games m id of
                       None \<Rightarrow> onFinishCalls m id
                     | Some g \<Rightarrow> if stale m now g \<and> onFinish m then Suc (onFinishCalls m id)
                                else onFinishCalls m id)\<rparr>"

text \<open>Runs of the registry: the operations as data, applied from left to right.\<close>

datatype registry_op =
    OpAssignPlayer string Time Time string
  | OpStartBotGame string Time Time string
  | OpHandleMove Time Time Move
  | OpAbandon string
  | OpMarkDisconnected Time string
  | OpSweepDisconnects Time "string \<Rightarrow> string list"

fun exec_op :: "Manager \<Rightarrow> registry_op \<Rightarrow> Manager" where
  "exec_op m (OpAssignPlayer newID now1 now2 username) = snd (AssignPlayer m newID now1 now2 username)"
| "exec_op m (OpStartBotGame newID now1 now2 human) = snd (StartBotGame m newID now1 now2 human)"
| "exec_op m (OpHandleMove now1 now2 move) = snd (HandleMove m now1 now2 move)"
| "exec_op m (OpAbandon username) = Abandon m username"
| "exec_op m (OpMarkDisconnected now username) = MarkDisconnected m now username"
| "exec_op m (OpSweepDisconnects now visit) = SweepDisconnects m now visit"

definition run :: "Manager \<Rightarrow> registry_op list \<Rightarrow> Manager" where
  "run m ops = foldl exec_op m ops"

section \<open>Properties the claims are measured against, and the grids they are tried on\<close>

text \<open>
  Playing the marks \<open>ps\<close> one after the other into the same column: the grid at the end
  and the error of every call.
\<close>

fun drop_all :: "Board \<Rightarrow> int \<Rightarrow> int list \<Rightarrow> Board \<times> error option list" where
  "drop_all b col [] = (b, [])"
| "drop_all b col (p # ps) =
     (case ApplyMove b col p of
        (b', res, err) \<Rightarrow> (case drop_all b' col ps of (b'', errs) \<Rightarrow> (b'', err # errs)))"

text \<open>No empty cell of column \<open>col\<close> lies below an occupied one, as gravity leaves a column.\<close>

definition settled_col :: "Board \<Rightarrow> int \<Rightarrow> bool" where
  "settled_col b col \<longleftrightarrow>
     (\<forall>r. 0 \<le> r \<and> r + 1 < Rows \<and> cell b r col \<noteq> CellEmpty \<longrightarrow> cell b (r + 1) col \<noteq> CellEmpty)"

text \<open>
  A line of four in the words of the specification: the four cells from \<open>(r, c)\<close> on in
  direction \<open>(dx, dy)\<close> lie on the grid and hold \<open>mark\<close>; and some line of four of \<open>mark\<close>
  on the grid.
\<close>

definition line_at :: "Board \<Rightarrow> int \<Rightarrow> int \<Rightarrow> int \<Rightarrow> int \<Rightarrow> int \<Rightarrow> bool" where
  "line_at b mark r c dx dy \<longleftrightarrow>
     list_all (\<lambda>k. 0 \<le> r + k * dx \<and> r + k * dx < Rows \<and> 0 \<le> c + k * dy \<and> c + k * dy < Columns \<and>
                    cell b (r + k * dx) (c + k * dy) = mark) [0, 1, 2, 3]"

definition four_in_line :: "Board \<Rightarrow> int \<Rightarrow> bool" where
  "four_in_line b mark \<longleftrightarrow>
     list_ex (\<lambda>r. list_ex (\<lambda>c. list_ex (\<lambda>d. line_at b mark r c (fst d) (snd d)) directions)
                    [0, 1, 2, 3, 4, 5, 6]) [0, 1, 2, 3, 4, 5]"

text \<open>
  The grid after the moves 0, 4, 1, 5, 2, 0 of a game (mark 1 first): mark 1 holds three
  cells of the bottom row and is to move.
\<close>

definition grid_three_in_row :: Board where
  "grid_three_in_row =
     [[0, 0, 0, 0, 0, 0, 0],
      [0, 0, 0, 0, 0, 0, 0],
      [0, 0, 0, 0, 0, 0, 0],
      [0, 0, 0, 0, 0, 0, 0],
      [2, 0, 0, 0, 0, 0, 0],
      [1, 1, 1, 0, 2, 2, 0]]"

text \<open>A grid whose column 0 holds a mark in its top cell only.\<close>

definition grid_top_only :: Board where
  "grid_top_only =
     [[1, 0, 0, 0, 0, 0, 0],
      [0, 0, 0, 0, 0, 0, 0],
      [0, 0, 0, 0, 0, 0, 0],
      [0, 0, 0, 0, 0, 0, 0],
      [0, 0, 0, 0, 0, 0, 0],
      [0, 0, 0, 0, 0, 0, 0]]"

text \<open>
  The grid after 41 moves of a game in which no move made a line of four: one cell is
  left, on top of column 2, and mark 2 is to move.  \<open>grid_full\<close> is the grid after that
  move.
\<close>

definition grid_one_cell_left :: Board where
  "grid_one_cell_left =
     [[1, 2, 0, 2, 1, 2, 2],
      [1, 2, 1, 1, 2, 1, 2],
      [1, 1, 1, 2, 2, 1, 1],
      [2, 2, 1, 2, 1, 2, 2],
      [1, 1, 2, 2, 1, 2, 2],
      [1, 1, 2, 1, 2, 1, 1]]"

definition grid_full :: Board where
  "grid_full =
     [[1, 2, 2, 2, 1, 2, 2],
      [1, 2, 1, 1, 2, 1, 2],
      [1, 1, 1, 2, 2, 1, 1],
      [2, 2, 1, 2, 1, 2, 2],
      [1, 1, 2, 2, 1, 2, 2],
      [1, 1, 2, 1, 2, 1, 1]]"

text \<open>
  The test of \<^verbatim>\<open>findImmediate\<close> for one column, read off its loop body: the column can be
  played and \<open>ApplyMove\<close> reports \<open>player\<close> as \<open>Winner\<close>.  It is the verdict of the engine,
  not a line of four on the grid.
\<close>

definition engine_win_at :: "Board \<Rightarrow> int \<Rightarrow> int \<Rightarrow> bool" where
  "engine_win_at board player col \<longleftrightarrow>
     canPlay board col \<and> MoveResult.Winner (fst (snd (ApplyMove board col player))) = player"

text \<open>What a caller reads from the session stored under \<open>gid\<close>.\<close>

definition session_status :: "Manager \<Rightarrow> string \<Rightarrow> string option" where
  "session_status m gid = map_option Status (games m gid)"

definition session_turn :: "Manager \<Rightarrow> string \<Rightarrow> int option" where
  "session_turn m gid = map_option Turn (games m gid)"

definition session_winner :: "Manager \<Rightarrow> string \<Rightarrow> string option" where
  "session_winner m gid = map_option GameState.Winner (games m gid)"

definition participant :: "Manager \<Rightarrow> string \<Rightarrow> string \<Rightarrow> Player option" where
  "participant m gid name = (case games m gid of None \<Rightarrow> None | Some g \<Rightarrow> Players g name)"

text \<open>The participants of a session that are not algorithmic.\<close>

definition humans :: "GameState \<Rightarrow> string set" where
  "humans g = {name. \<exists>p. Players g name = Some p \<and> \<not> IsBot p}"

definition session_humans :: "Manager \<Rightarrow> string \<Rightarrow> string set" where
  "session_humans m gid = (case games m gid of None \<Rightarrow> {} | Some g \<Rightarrow> humans g)"

definition session_stale :: "Manager \<Rightarrow> Time \<Rightarrow> string \<Rightarrow> bool" where
  "session_stale m now gid = (case games m gid of None \<Rightarrow> False | Some g \<Rightarrow> stale m now g)"

text \<open>The invariant of the specification: the mark to move is held by a participant.\<close>

definition turn_names_participant :: "GameState \<Rightarrow> bool" where
  "turn_names_participant g \<longleftrightarrow> (\<exists>name p. Players g name = Some p \<and> Slot p = Turn g)"


text \<open>
  Registries reached from \<open>NewManager\<close>, with a window of 30 nanoseconds: one identity
  waiting; two identities paired in session \<open>g1\<close>; that session after a sweep at time
  1000; the same identity assigned twice; a session against the opponent; and such a
  session started for the identity \<open>bot\<close>.
\<close>

definition visit_two :: "string \<Rightarrow> string list" where
  "visit_two key = [''alice'', ''bob'']"

definition visit_bot_first :: "string \<Rightarrow> string list" where
  "visit_bot_first key = [''bot'', ''alice'']"

definition visit_human_first :: "string \<Rightarrow> string list" where
  "visit_human_first key = [''alice'', ''bot'']"

definition visit_bot :: "string \<Rightarrow> string list" where
  "visit_bot key = [''bot'']"

definition registry_waiting :: Manager where
  "registry_waiting = run (NewManager 30 True) [OpAssignPlayer ''g0'' 0 0 ''alice'']"

definition registry_paired :: Manager where
  "registry_paired = run registry_waiting [OpAssignPlayer ''g1'' 5 5 ''bob'']"

definition registry_forfeited :: Manager where
  "registry_forfeited = run registry_paired [OpSweepDisconnects 1000 visit_two]"

definition registry_self_paired :: Manager where
  "registry_self_paired = run registry_waiting [OpAssignPlayer ''g1'' 5 5 ''alice'']"

definition registry_bot_game :: Manager where
  "registry_bot_game = run (NewManager 30 True) [OpStartBotGame ''g1'' 5 5 ''alice'']"

definition registry_bot_only :: Manager where
  "registry_bot_only = run (NewManager 30 True) [OpStartBotGame ''g1'' 5 5 ''bot'']"

text \<open>
  A game as the registry sees it: the columns \<open>cs\<close> sent as moves to session \<open>gid\<close> by
  the two identities in turn, \<open>first\<close> to begin.  \<open>game_41\<close> is a game of 41 moves.
\<close>

fun play_ops :: "string \<Rightarrow> string \<Rightarrow> string \<Rightarrow> int list \<Rightarrow> registry_op list" where
  "play_ops gid first second [] = []"
| "play_ops gid first second (c # cs) =
     OpHandleMove 0 0 \<lparr>Move.Username = first, GameID = gid, Column = c\<rparr> # play_ops gid second first cs"

definition session_board :: "Manager \<Rightarrow> string \<Rightarrow> Board option" where
  "session_board m gid = map_option GameState.Board (games m gid)"

definition game_41 :: "int list" where
  "game_41 =
     [3, 3, 5, 5, 6, 4, 1, 3, 1, 2, 4, 1, 4, 3, 1, 5, 3, 2, 0, 1, 5,
      3, 2, 1, 2, 6, 0, 0, 2, 6, 6, 4, 0, 6, 5, 4, 0, 5, 0, 6, 4]"

text \<open>
  The grids of play: the receiver after the calls \<^verbatim>\<open>ApplyMove(col, mark)\<close> of the list \<open>ms\<close>
  of pairs \<open>(col, mark)\<close>, made one after the other, on the empty grid for \<open>played\<close>.  A
  call that fails leaves the receiver as it is and the calls go on.
\<close>

fun play :: "Board \<Rightarrow> (int \<times> int) list \<Rightarrow> Board" where
  "play b [] = b"
| "play b (m # ms) = play (fst (ApplyMove b (fst m) (snd m))) ms"

definition played :: "(int \<times> int) list \<Rightarrow> Board" where
  "played ms = play ZeroBoard ms"

text \<open>Six moves into column 3, marks alternating: the column is full.\<close>

definition column_3_filled :: "(int \<times> int) list" where
  "column_3_filled = [(3, 1), (3, 2), (3, 1), (3, 2), (3, 1), (3, 2)]"

text \<open>The moves that lead to \<open>grid_three_in_row\<close>.\<close>

definition moves_three_in_row :: "(int \<times> int) list" where
  "moves_three_in_row = [(0, 1), (4, 2), (1, 1), (5, 2), (2, 1), (0, 2)]"

text \<open>
  An immediate win in the words of the specification: column \<open>col\<close> can be played and the
  grid with \<open>mark\<close> placed there holds a line of four of \<open>mark\<close>.
\<close>

definition completes_line :: "Board \<Rightarrow> int \<Rightarrow> int \<Rightarrow> bool" where
  "completes_line board mark col \<longleftrightarrow>
     canPlay board col \<and> four_in_line (fst (ApplyMove board col mark)) mark"

text \<open>
  Two grids of a game against the opponent, the human with mark 1 to begin and the
  opponent with mark 2 to move.  \<open>grid_false_threat\<close> stands after the moves 0, 3, 2: no
  column completes a line of four for either mark.  \<open>grid_win_passed\<close> stands after the
  moves of \<open>game_11\<close>: mark 2 completes the row \<open>(4,3) .. (4,6)\<close> in column 6.
\<close>

definition grid_false_threat :: Board where
  "grid_false_threat =
     [[0, 0, 0, 0, 0, 0, 0],
      [0, 0, 0, 0, 0, 0, 0],
      [0, 0, 0, 0, 0, 0, 0],
      [0, 0, 0, 0, 0, 0, 0],
      [0, 0, 0, 0, 0, 0, 0],
      [1, 0, 1, 2, 0, 0, 0]]"

definition grid_win_passed :: Board where
  "grid_win_passed =
     [[0, 0, 0, 0, 0, 0, 0],
      [0, 0, 0, 1, 0, 0, 0],
      [0, 0, 0, 2, 0, 0, 0],
      [0, 0, 0, 1, 1, 0, 0],
      [0, 0, 0, 2, 2, 2, 0],
      [0, 0, 0, 2, 1, 1, 1]]"

definition game_11 :: "int list" where
  "game_11 = [4, 3, 5, 3, 3, 4, 6, 3, 4, 5, 3]"

text \<open>
  A game against the opponent as the server plays it: after each move \<open>h\<close> of the human
  (mark 1) the opponent (mark 2) plays the column \<open>ChooseMove\<close> gives on the grid.
\<close>

fun bot_game :: "Board \<Rightarrow> int list \<Rightarrow> Board" where
  "bot_game b [] = b"
| "bot_game b (h # hs) =
     (let b1 = fst (ApplyMove b h CellP1);
          b2 = fst (ApplyMove b1 (ChooseMove (NewBot CellP2) b1) CellP2)
      in bot_game b2 hs)"

section \<open>Facts about the grid\<close>

lemma ZeroBoard_rows: "ZeroBoard =
  [[0,0,0,0,0,0,0],[0,0,0,0,0,0,0],[0,0,0,0,0,0,0],[0,0,0,0,0,0,0],[0,0,0,0,0,0,0],[0,0,0,0,0,0,0]]"
  by (simp add: ZeroBoard_def eval_nat_numeral)

lemma wf_ZeroBoard: "wf_Board ZeroBoard"
  by (simp add: wf_Board_def ZeroBoard_def list_all_iff)

lemma wf_set_cell: "wf_Board b \<Longrightarrow> wf_Board (set_cell b r c v)"
proof (cases "nat r < length b")
  case True
  assume "wf_Board b"
  with True show ?thesis
    by (auto simp: wf_Board_def set_cell_def list_all_length nth_list_update)
next
  case False
  assume "wf_Board b"
  with False show ?thesis by (simp add: set_cell_def list_update_beyond)
qed

lemma cell_set_cell:
  "wf_Board b \<Longrightarrow> 0 \<le> r \<Longrightarrow> r < Rows \<Longrightarrow> 0 \<le> c \<Longrightarrow> c < Columns \<Longrightarrow> 0 \<le> r' \<Longrightarrow> 0 \<le> c' \<Longrightarrow>
   cell (set_cell b r c v) r' c' = (if r' = r \<and> c' = c then v else cell b r' c')"
  by (auto simp: wf_Board_def cell_def set_cell_def list_all_length nth_list_update)

lemma ApplyMove_loop_full:
  "(\<And>r. 0 \<le> r \<Longrightarrow> r \<le> row \<Longrightarrow> cell b r col \<noteq> CellEmpty) \<Longrightarrow>
   ApplyMove_loop b col player row = (b, ZeroMoveResult, Some ErrColumnFull)"
proof (induction b col player row rule: ApplyMove_loop.induct)
  case (1 b col player row)
  show ?case
  proof (cases "row \<ge> 0")
    case True
    with 1 show ?thesis by (subst ApplyMove_loop.simps) simp
  next
    case False
    then show ?thesis by (subst ApplyMove_loop.simps) simp
  qed
qed

lemma ApplyMove_loop_lowest:
  "0 \<le> r \<Longrightarrow> r \<le> row \<Longrightarrow> cell b r col = CellEmpty \<Longrightarrow>
   (\<And>r'. r < r' \<Longrightarrow> r' \<le> row \<Longrightarrow> cell b r' col \<noteq> CellEmpty) \<Longrightarrow>
   ApplyMove_loop b col player row =
     (set_cell b r col player, evaluate (set_cell b r col player) r col player, None)"
proof (induction b col player row rule: ApplyMove_loop.induct)
  case (1 b col player row)
  show ?case
  proof (cases "r = row")
    case True
    with 1 show ?thesis by (subst ApplyMove_loop.simps) (simp add: Let_def)
  next
    case False
    with 1 have ne: "cell b row col \<noteq> CellEmpty" and lt: "r \<le> row - 1" by auto
    from 1 have "ApplyMove_loop b col player (row - 1) =
      (set_cell b r col player, evaluate (set_cell b r col player) r col player, None)"
      using ne lt by (intro "1.IH") auto
    with 1 ne show ?thesis by (subst ApplyMove_loop.simps) simp
  qed
qed

lemma lowest_empty_cases:
  fixes row :: int
  shows "(\<forall>r. 0 \<le> r \<and> r \<le> row \<longrightarrow> cell b r col \<noteq> CellEmpty) \<or>
   (\<exists>r. 0 \<le> r \<and> r \<le> row \<and> cell b r col = CellEmpty \<and> (\<forall>r'. r < r' \<and> r' \<le> row \<longrightarrow> cell b r' col \<noteq> CellEmpty))"
proof (induction "nat (row + 1)" arbitrary: row)
  case 0
  then show ?case by auto
next
  case (Suc n)
  then have n: "n = nat ((row - 1) + 1)" and r0: "0 \<le> row" by auto
  show ?case
  proof (cases "cell b row col = CellEmpty")
    case True
    with r0 show ?thesis by (intro disjI2 exI[of _ row]) auto
  next
    case False
    from Suc(1)[OF n] show ?thesis
    proof
      assume a: "\<forall>r. 0 \<le> r \<and> r \<le> row - 1 \<longrightarrow> cell b r col \<noteq> CellEmpty"
      have "\<forall>r. 0 \<le> r \<and> r \<le> row \<longrightarrow> cell b r col \<noteq> CellEmpty"
      proof (intro allI impI)
        fix r assume "0 \<le> r \<and> r \<le> row"
        then show "cell b r col \<noteq> CellEmpty" using a False by (cases "r = row") auto
      qed
      then show ?thesis by blast
    next
      assume "\<exists>r. 0 \<le> r \<and> r \<le> row - 1 \<and> cell b r col = CellEmpty \<and> (\<forall>r'. r < r' \<and> r' \<le> row - 1 \<longrightarrow> cell b r' col \<noteq> CellEmpty)"
      then obtain r where r: "0 \<le> r" "r \<le> row - 1" "cell b r col = CellEmpty"
        "\<forall>r'. r < r' \<and> r' \<le> row - 1 \<longrightarrow> cell b r' col \<noteq> CellEmpty" by blast
      have "\<forall>r'. r < r' \<and> r' \<le> row \<longrightarrow> cell b r' col \<noteq> CellEmpty"
      proof (intro allI impI)
        fix r' assume "r < r' \<and> r' \<le> row"
        then show "cell b r' col \<noteq> CellEmpty" using r(4) False by (cases "r' = row") auto
      qed
      with r show ?thesis by (intro disjI2 exI[of _ r]) auto
    qed
  qed
qed

lemma CopyBoard_id: "wf_Board b \<Longrightarrow> CopyBoard b = b"
proof -
  assume wf: "wf_Board b"
  then obtain r0 r1 r2 r3 r4 r5 where b: "b = [r0, r1, r2, r3, r4, r5]"
    by (auto simp: wf_Board_def eval_nat_numeral length_Suc_conv)
  have len: "\<And>r. r \<in> set b \<Longrightarrow> \<exists>a0 a1 a2 a3 a4 a5 a6. r = [a0,a1,a2,a3,a4,a5,a6]"
    using wf by (auto simp: wf_Board_def list_all_iff eval_nat_numeral length_Suc_conv)
  obtain a0 a1 a2 a3 a4 a5 a6 where r0: "r0 = [a0,a1,a2,a3,a4,a5,a6]" using len[of r0] b by auto
  obtain b0 b1 b2 b3 b4 b5 b6 where r1: "r1 = [b0,b1,b2,b3,b4,b5,b6]" using len[of r1] b by auto
  obtain c0 c1 c2 c3 c4 c5 c6 where r2: "r2 = [c0,c1,c2,c3,c4,c5,c6]" using len[of r2] b by auto
  obtain d0 d1 d2 d3 d4 d5 d6 where r3: "r3 = [d0,d1,d2,d3,d4,d5,d6]" using len[of r3] b by auto
  obtain e0 e1 e2 e3 e4 e5 e6 where r4: "r4 = [e0,e1,e2,e3,e4,e5,e6]" using len[of r4] b by auto
  obtain f0 f1 f2 f3 f4 f5 f6 where r5: "r5 = [f0,f1,f2,f3,f4,f5,f6]" using len[of r5] b by auto
  have u: "[0..6] = [0,1,2,3,4,5,(6::int)]" "[0..5] = [0,1,2,3,4,(5::int)]" by (simp_all add: upto.simps)
  show ?thesis
    unfolding b r0 r1 r2 r3 r4 r5 CopyBoard_def
    by (simp add: u ZeroBoard_rows set_cell_def cell_def eval_nat_numeral)
qed

lemma ApplyMove_step:
  assumes wf: "wf_Board b" and col: "0 \<le> col" "col < Columns" and k: "0 < k" "k \<le> Rows"
    and empty: "\<And>r. 0 \<le> r \<Longrightarrow> r < k \<Longrightarrow> cell b r col = CellEmpty"
    and full: "\<And>r. k \<le> r \<Longrightarrow> r < Rows \<Longrightarrow> cell b r col \<noteq> CellEmpty"
  shows "ApplyMove b col p = (set_cell b (k - 1) col p, evaluate (set_cell b (k - 1) col p) (k - 1) col p, None)"
proof -
  have "ApplyMove_loop b col p (Rows - 1) =
    (set_cell b (k - 1) col p, evaluate (set_cell b (k - 1) col p) (k - 1) col p, None)"
    using k empty full by (intro ApplyMove_loop_lowest) auto
  with col show ?thesis by (simp add: ApplyMove_def)
qed

lemma drop_all_fills:
  assumes col: "0 \<le> col" "col < Columns"
  shows "wf_Board b \<Longrightarrow> int (length ps) \<le> Rows \<Longrightarrow> CellEmpty \<notin> set ps \<Longrightarrow>
    (\<And>r. 0 \<le> r \<Longrightarrow> r < int (length ps) \<Longrightarrow> cell b r col = CellEmpty) \<Longrightarrow>
    (\<And>r. int (length ps) \<le> r \<Longrightarrow> r < Rows \<Longrightarrow> cell b r col \<noteq> CellEmpty) \<Longrightarrow>
    snd (drop_all b col (ps @ [q])) = replicate (length ps) None @ [Some ErrColumnFull]"
proof (induction ps arbitrary: b)
  case Nil
  then have "ApplyMove_loop b col q (Rows - 1) = (b, ZeroMoveResult, Some ErrColumnFull)"
    by (intro ApplyMove_loop_full) auto
  with col show ?case by (simp add: ApplyMove_def)
next
  case (Cons p ps)
  let ?k = "int (length (p # ps))"
  let ?b' = "set_cell b (?k - 1) col p"
  have step: "ApplyMove b col p = (?b', evaluate ?b' (?k - 1) col p, None)"
    using Cons.prems col by (intro ApplyMove_step) auto
  have p: "p \<noteq> CellEmpty" using Cons.prems by auto
  have wf': "wf_Board ?b'" using Cons.prems by (simp add: wf_set_cell)
  have c: "\<And>r. 0 \<le> r \<Longrightarrow> r < Rows \<Longrightarrow> cell ?b' r col = (if r = ?k - 1 then p else cell b r col)"
    using Cons.prems(1,2) col by (subst cell_set_cell) auto
  have IH: "snd (drop_all ?b' col (ps @ [q])) = replicate (length ps) None @ [Some ErrColumnFull]"
  proof (rule Cons.IH[OF wf'])
    show "int (length ps) \<le> Rows" using Cons.prems by auto
    show "CellEmpty \<notin> set ps" using Cons.prems by auto
  next
    fix r :: int assume "0 \<le> r" "r < int (length ps)"
    then show "cell ?b' r col = CellEmpty" using Cons.prems(2) Cons.prems(4)[of r] by (subst c) auto
  next
    fix r :: int assume "int (length ps) \<le> r" "r < Rows"
    then show "cell ?b' r col \<noteq> CellEmpty" using p Cons.prems(5)[of r] by (subst c) auto
  qed
  show ?case using step IH by (simp add: split_beta)
qed

lemma all_cols: "(\<forall>c::int. 0 \<le> c \<and> c < 7 \<longrightarrow> P c) \<longleftrightarrow> P 0 \<and> P 1 \<and> P 2 \<and> P 3 \<and> P 4 \<and> P 5 \<and> P 6"
proof
  assume a: "\<forall>c::int. 0 \<le> c \<and> c < 7 \<longrightarrow> P c"
  show "P 0 \<and> P 1 \<and> P 2 \<and> P 3 \<and> P 4 \<and> P 5 \<and> P 6" using a by simp
next
  assume a: "P 0 \<and> P 1 \<and> P 2 \<and> P 3 \<and> P 4 \<and> P 5 \<and> P 6"
  show "\<forall>c::int. 0 \<le> c \<and> c < 7 \<longrightarrow> P c"
  proof (intro allI impI)
    fix c :: int assume "0 \<le> c \<and> c < 7"
    then have "c = 0 \<or> c = 1 \<or> c = 2 \<or> c = 3 \<or> c = 4 \<or> c = 5 \<or> c = 6" by arith
    with a show "P c" by auto
  qed
qed

lemma settled_col_full:
  assumes s: "settled_col b col" and top: "cell b 0 col \<noteq> CellEmpty"
  shows "0 \<le> r \<Longrightarrow> r < Rows \<Longrightarrow> cell b r col \<noteq> CellEmpty"
proof -
  have "int n < Rows \<Longrightarrow> cell b (int n) col \<noteq> CellEmpty" for n
  proof (induction n)
    case 0
    then show ?case using top by simp
  next
    case (Suc n)
    then have "0 \<le> int n \<and> int n + 1 < Rows \<and> cell b (int n) col \<noteq> CellEmpty" by simp
    with s have "cell b (int n + 1) col \<noteq> CellEmpty"
      unfolding settled_col_def by blast
    then show ?case by (simp add: add.commute)
  qed
  from this[of "nat r"] show "0 \<le> r \<Longrightarrow> r < Rows \<Longrightarrow> cell b r col \<noteq> CellEmpty" by simp
qed

lemma ApplyMove_full:
  "0 \<le> col \<Longrightarrow> col < Columns \<Longrightarrow> (\<And>r. 0 \<le> r \<Longrightarrow> r < Rows \<Longrightarrow> cell b r col \<noteq> CellEmpty) \<Longrightarrow>
   ApplyMove b col p = (b, ZeroMoveResult, Some ErrColumnFull)"
  using ApplyMove_loop_full[of "Rows - 1" b col p] by (simp add: ApplyMove_def)

lemma ApplyMove_lowest:
  "0 \<le> col \<Longrightarrow> col < Columns \<Longrightarrow> 0 \<le> r \<Longrightarrow> r < Rows \<Longrightarrow> cell b r col = CellEmpty \<Longrightarrow>
   (\<And>r'. r < r' \<Longrightarrow> r' < Rows \<Longrightarrow> cell b r' col \<noteq> CellEmpty) \<Longrightarrow>
   ApplyMove b col p = (set_cell b r col p, evaluate (set_cell b r col p) r col p, None)"
  using ApplyMove_loop_lowest[of r "Rows - 1" b col p] by (simp add: ApplyMove_def)

lemma ApplyMove_cases:
  obtains (invalid) "col < 0 \<or> Columns \<le> col" "ApplyMove b col p = (b, ZeroMoveResult, Some ErrInvalidCol)"
  | (full) "0 \<le> col" "col < Columns" "\<forall>r. 0 \<le> r \<and> r < Rows \<longrightarrow> cell b r col \<noteq> CellEmpty"
      "ApplyMove b col p = (b, ZeroMoveResult, Some ErrColumnFull)"
  | (placed) r where "0 \<le> col" "col < Columns" "0 \<le> r" "r < Rows" "cell b r col = CellEmpty"
      "\<forall>r'. r < r' \<and> r' < Rows \<longrightarrow> cell b r' col \<noteq> CellEmpty"
      "ApplyMove b col p = (set_cell b r col p, evaluate (set_cell b r col p) r col p, None)"
proof (cases "col < 0 \<or> Columns \<le> col")
  case True
  then show ?thesis using invalid by (simp add: ApplyMove_def)
next
  case False
  then have col: "0 \<le> col" "col < Columns" by auto
  from lowest_empty_cases[of "Rows - 1" b col] show ?thesis
  proof
    assume a: "\<forall>r. 0 \<le> r \<and> r \<le> Rows - 1 \<longrightarrow> cell b r col \<noteq> CellEmpty"
    then have "ApplyMove b col p = (b, ZeroMoveResult, Some ErrColumnFull)"
      using col by (intro ApplyMove_full) auto
    with a col show ?thesis using full by auto
  next
    assume "\<exists>r. 0 \<le> r \<and> r \<le> Rows - 1 \<and> cell b r col = CellEmpty \<and>
      (\<forall>r'. r < r' \<and> r' \<le> Rows - 1 \<longrightarrow> cell b r' col \<noteq> CellEmpty)"
    then obtain r where r: "0 \<le> r" "r < Rows" "cell b r col = CellEmpty"
      "\<forall>r'. r < r' \<and> r' < Rows \<longrightarrow> cell b r' col \<noteq> CellEmpty" by auto
    then have "ApplyMove b col p = (set_cell b r col p, evaluate (set_cell b r col p) r col p, None)"
      using col by (intro ApplyMove_lowest) auto
    with r col show ?thesis using placed by blast
  qed
qed

lemma evaluate_dirs_Board: "MoveResult.Board (evaluate_dirs board row col player ds) = board"
  by (induction ds) (auto simp: Let_def)

lemma evaluate_Board: "MoveResult.Board (evaluate board row col player) = board"
  by (simp add: evaluate_def evaluate_dirs_Board del: evaluate_dirs.simps)

lemma wf_ApplyMove: "wf_Board b \<Longrightarrow> wf_Board (fst (ApplyMove b col p))"
  by (cases rule: ApplyMove_cases[where b = b and col = col and p = p]) (auto simp: wf_set_cell)

lemma settled_ApplyMove:
  assumes wf: "wf_Board b" and c: "0 \<le> c" "c < Columns" and s: "settled_col b c"
  shows "settled_col (fst (ApplyMove b col p)) c"
proof (cases rule: ApplyMove_cases[where b = b and col = col and p = p])
  case invalid
  with s show ?thesis by simp
next
  case full
  with s show ?thesis by simp
next
  case (placed r)
  have cs: "cell (set_cell b r col p) r' c = (if r' = r \<and> c = col then p else cell b r' c)"
    if "0 \<le> r'" for r'
    using wf placed(1-4) c(1) that by (simp add: cell_set_cell)
  have "cell (set_cell b r col p) (r0 + 1) c \<noteq> CellEmpty"
    if r0: "0 \<le> r0" "r0 + 1 < Rows" "cell (set_cell b r col p) r0 c \<noteq> CellEmpty" for r0
  proof (cases "c = col")
    case False
    with r0 cs[of r0] cs[of "r0 + 1"] s show ?thesis
      unfolding settled_col_def by auto
  next
    case True
    show ?thesis
    proof (cases "r0 = r")
      case same: True
      have "cell b (r + 1) col \<noteq> CellEmpty" using placed(6) r0(2) same by simp
      with cs[of "r0 + 1"] r0 same True show ?thesis by simp
    next
      case diff: False
      then have b0: "cell b r0 col \<noteq> CellEmpty" using cs[of r0] r0 True by simp
      then have b1: "cell b (r0 + 1) col \<noteq> CellEmpty"
        using s r0 True unfolding settled_col_def by blast
      then have "r0 + 1 \<noteq> r" using placed(5) by auto
      with b1 cs[of "r0 + 1"] r0 True show ?thesis by simp
    qed
  qed
  then have "settled_col (set_cell b r col p) c" unfolding settled_col_def by blast
  with placed show ?thesis by simp
qed

lemma play_invariant:
  "wf_Board b \<Longrightarrow> (\<And>c. 0 \<le> c \<Longrightarrow> c < Columns \<Longrightarrow> settled_col b c) \<Longrightarrow>
   wf_Board (play b ms) \<and> (\<forall>c. 0 \<le> c \<and> c < Columns \<longrightarrow> settled_col (play b ms) c)"
proof (induction ms arbitrary: b)
  case Nil
  then show ?case by simp
next
  case (Cons m ms)
  have "wf_Board (fst (ApplyMove b (fst m) (snd m)))" using Cons.prems(1) by (rule wf_ApplyMove)
  moreover have "settled_col (fst (ApplyMove b (fst m) (snd m))) c" if "0 \<le> c" "c < Columns" for c
    using Cons.prems that by (intro settled_ApplyMove) auto
  ultimately show ?case using Cons.IH by simp
qed

lemma settled_ZeroBoard: "0 \<le> c \<Longrightarrow> c < Columns \<Longrightarrow> settled_col ZeroBoard c"
  by (auto simp: settled_col_def cell_def ZeroBoard_def)

lemma played_invariant:
  "wf_Board (played ms)" "0 \<le> c \<Longrightarrow> c < Columns \<Longrightarrow> settled_col (played ms) c"
  using play_invariant[of ZeroBoard ms] wf_ZeroBoard settled_ZeroBoard
  by (auto simp: played_def)

section \<open>The claims about the grid engine\<close>

text \<open>
  C1 (the code departs from the claim).  The claim: a move that completes a run of four
  same-mark cells in a line is reported as a win, with the run.  On \<open>grid_three_in_row\<close>
  mark 1 plays column 3 and completes the run \<open>(5,0) .. (5,3)\<close> of the bottom row; the
  engine reports no winner and no winning cells.  The second walk of \<^verbatim>\<open>winningCoords\<close>
  starts one cell back and steps forward again, so a run that lies behind the placed
  cell is counted as three cells at most.
\<close>

theorem ApplyMove_misses_horizontal_run:
  "fst (snd (ApplyMove grid_three_in_row 3 CellP1)) =
     \<lparr>MoveResult.Board = set_cell grid_three_in_row 5 3 CellP1, Winner = 0, IsDraw = False, Winning = []\<rparr> \<and>
   snd (snd (ApplyMove grid_three_in_row 3 CellP1)) = None \<and>
   line_at (set_cell grid_three_in_row 5 3 CellP1) CellP1 5 0 0 1"
  by code_simp

text \<open>
  C2.  On every grid of play, that is every grid that calls of \<open>ApplyMove\<close> make of the
  empty grid: \<open>ApplyMove\<close> fails with \<open>ErrInvalidCol\<close> when the column is outside
  \<open>[0, Columns)\<close> and with \<open>ErrColumnFull\<close> when the top cell of the column is occupied,
  and the grid is unchanged in both cases; otherwise the mark is placed in the lowest
  empty row of the column and no other cell changes.  Six marks played into one column
  of the empty grid are all accepted and a seventh attempt gives \<open>ErrColumnFull\<close>; a
  mark is a cell value other than \<open>CellEmpty\<close>.
\<close>

theorem ApplyMove_errors_and_gravity:
  assumes b: "b = played ms"
  shows
  "(col < 0 \<or> Columns \<le> col \<longrightarrow> ApplyMove b col p = (b, ZeroMoveResult, Some ErrInvalidCol)) \<and>
   (0 \<le> col \<and> col < Columns \<and> cell b 0 col \<noteq> CellEmpty \<longrightarrow>
      ApplyMove b col p = (b, ZeroMoveResult, Some ErrColumnFull)) \<and>
   (0 \<le> col \<and> col < Columns \<and> cell b 0 col = CellEmpty \<longrightarrow>
      (\<exists>r. 0 \<le> r \<and> r < Rows \<and> cell b r col = CellEmpty \<and>
           (\<forall>r'. r < r' \<and> r' < Rows \<longrightarrow> cell b r' col \<noteq> CellEmpty) \<and>
           ApplyMove b col p = (set_cell b r col p, evaluate (set_cell b r col p) r col p, None) \<and>
           cell (set_cell b r col p) r col = p \<and>
           (\<forall>r' c'. 0 \<le> r' \<and> 0 \<le> c' \<and> (r' \<noteq> r \<or> c' \<noteq> col) \<longrightarrow>
              cell (set_cell b r col p) r' c' = cell b r' c'))) \<and>
   (0 \<le> col \<and> col < Columns \<and> int (length ps) = Rows \<and> CellEmpty \<notin> set ps \<longrightarrow>
      snd (drop_all ZeroBoard col (ps @ [q])) = replicate (nat Rows) None @ [Some ErrColumnFull])"
proof (intro conjI impI)
  assume "col < 0 \<or> Columns \<le> col"
  then show "ApplyMove b col p = (b, ZeroMoveResult, Some ErrInvalidCol)"
    by (simp add: ApplyMove_def)
next
  assume a: "0 \<le> col \<and> col < Columns \<and> cell b 0 col \<noteq> CellEmpty"
  then have "settled_col b col" using played_invariant(2)[of col ms] b by simp
  with a have "\<And>r. 0 \<le> r \<Longrightarrow> r < Rows \<Longrightarrow> cell b r col \<noteq> CellEmpty"
    using settled_col_full[of b col] by blast
  with a show "ApplyMove b col p = (b, ZeroMoveResult, Some ErrColumnFull)"
    by (intro ApplyMove_full) auto
next
  assume a: "0 \<le> col \<and> col < Columns \<and> cell b 0 col = CellEmpty"
  have wf: "wf_Board b" using played_invariant(1)[of ms] b by simp
  show "\<exists>r. 0 \<le> r \<and> r < Rows \<and> cell b r col = CellEmpty \<and>
           (\<forall>r'. r < r' \<and> r' < Rows \<longrightarrow> cell b r' col \<noteq> CellEmpty) \<and>
           ApplyMove b col p = (set_cell b r col p, evaluate (set_cell b r col p) r col p, None) \<and>
           cell (set_cell b r col p) r col = p \<and>
           (\<forall>r' c'. 0 \<le> r' \<and> 0 \<le> c' \<and> (r' \<noteq> r \<or> c' \<noteq> col) \<longrightarrow>
              cell (set_cell b r col p) r' c' = cell b r' c')"
  proof (cases rule: ApplyMove_cases[where b = b and col = col and p = p])
    case invalid
    with a show ?thesis by auto
  next
    case full
    with a show ?thesis by auto
  next
    case (placed r)
    have 1: "cell (set_cell b r col p) r col = p"
      using wf placed(1-4) by (simp add: cell_set_cell)
    have 2: "\<forall>r' c'. 0 \<le> r' \<and> 0 \<le> c' \<and> (r' \<noteq> r \<or> c' \<noteq> col) \<longrightarrow>
              cell (set_cell b r col p) r' c' = cell b r' c'"
      using wf placed(1-4) by (auto simp: cell_set_cell)
    show ?thesis using placed 1 2 by (intro exI[of _ r]) simp
  qed
next
  assume a: "0 \<le> col \<and> col < Columns \<and> int (length ps) = Rows \<and> CellEmpty \<notin> set ps"
  have z: "\<And>r c. 0 \<le> r \<Longrightarrow> r < Rows \<Longrightarrow> 0 \<le> c \<Longrightarrow> c < Columns \<Longrightarrow> cell ZeroBoard r c = CellEmpty"
    by (simp add: cell_def ZeroBoard_def)
  have "snd (drop_all ZeroBoard col (ps @ [q])) = replicate (length ps) None @ [Some ErrColumnFull]"
    using a z by (intro drop_all_fills wf_ZeroBoard) auto
  moreover have "length ps = nat Rows" using a by linarith
  ultimately show "snd (drop_all ZeroBoard col (ps @ [q])) = replicate (nat Rows) None @ [Some ErrColumnFull]"
    by simp
qed

text \<open>
  C2 at grids of play: a column outside the grid, the full column 3, column 0 of
  \<open>grid_three_in_row\<close> with two cells occupied, and seven moves into column 3.
\<close>

theorem ApplyMove_errors_and_gravity_witness:
  "ApplyMove (played []) 7 CellP1 = (played [], ZeroMoveResult, Some ErrInvalidCol) \<and>
   cell (played column_3_filled) 0 3 = CellP2 \<and>
   ApplyMove (played column_3_filled) 3 CellP1 =
     (played column_3_filled, ZeroMoveResult, Some ErrColumnFull) \<and>
   played moves_three_in_row = grid_three_in_row \<and>
   map (\<lambda>r. cell grid_three_in_row r 0) [0, 1, 2, 3, 4, 5] = [0, 0, 0, 0, 2, 1] \<and>
   ApplyMove grid_three_in_row 0 CellP1 =
     (set_cell grid_three_in_row 3 0 CellP1,
      evaluate (set_cell grid_three_in_row 3 0 CellP1) 3 0 CellP1, None) \<and>
   cell (set_cell grid_three_in_row 3 0 CellP1) 3 0 = CellP1 \<and>
   snd (drop_all ZeroBoard 3 ([1, 2, 1, 2, 1, 2] @ [1])) = replicate (nat Rows) None @ [Some ErrColumnFull]"
proof -
  have top: "cell (played column_3_filled) 0 3 = CellP2" by code_simp
  have reached: "played moves_three_in_row = grid_three_in_row" by code_simp
  have column: "map (\<lambda>r. cell grid_three_in_row r 0) [0, 1, 2, 3, 4, 5] = [0, 0, 0, 0, 2, 1]"
    by (simp add: cell_def grid_three_in_row_def)
  have c1: "ApplyMove (played []) 7 CellP1 = (played [], ZeroMoveResult, Some ErrInvalidCol)"
    using ApplyMove_errors_and_gravity[of "played []" "[]" 7 CellP1, THEN conjunct1] by simp
  have c2: "ApplyMove (played column_3_filled) 3 CellP1 =
     (played column_3_filled, ZeroMoveResult, Some ErrColumnFull)"
    using ApplyMove_errors_and_gravity[of "played column_3_filled" column_3_filled 3 CellP1, THEN conjunct2, THEN conjunct1]
      top by simp
  from ApplyMove_errors_and_gravity[of grid_three_in_row moves_three_in_row 0 CellP1,
      THEN conjunct2, THEN conjunct2, THEN conjunct1] reached column
  obtain r where r: "0 \<le> r" "r < Rows" "cell grid_three_in_row r 0 = CellEmpty"
    "\<forall>r'. r < r' \<and> r' < Rows \<longrightarrow> cell grid_three_in_row r' 0 \<noteq> CellEmpty"
    "ApplyMove grid_three_in_row 0 CellP1 =
       (set_cell grid_three_in_row r 0 CellP1, evaluate (set_cell grid_three_in_row r 0 CellP1) r 0 CellP1, None)"
    "cell (set_cell grid_three_in_row r 0 CellP1) r 0 = CellP1"
    by auto
  have "r = 0 \<or> r = 1 \<or> r = 2 \<or> r = 3 \<or> r = 4 \<or> r = 5" using r(1,2) by arith
  moreover have "r \<noteq> 4" "r \<noteq> 5" using r(3) column by auto
  moreover have "\<not> r < 3" using r(4) column by auto
  ultimately have r3: "r = 3" by arith
  have c4: "snd (drop_all ZeroBoard 3 ([1, 2, 1, 2, 1, 2] @ [1])) = replicate (nat Rows) None @ [Some ErrColumnFull]"
    using ApplyMove_errors_and_gravity[of ZeroBoard "[]" 3 0 "[1, 2, 1, 2, 1, 2]" 1,
        THEN conjunct2, THEN conjunct2, THEN conjunct2]
    by (simp add: played_def)
  show ?thesis using top reached column c1 c2 r(5,6) r3 c4 by blast
qed

text \<open>
  The grid of C2 has to be one of play.  \<open>grid_top_only\<close>, which no play makes, holds a
  mark in the top cell of column 0 above empty cells; the loop of \<open>ApplyMove\<close> looks for
  an empty cell from the bottom, so the move into column 0 is placed in the bottom row.
\<close>

lemma ApplyMove_scans_from_bottom:
  "cell grid_top_only 0 0 \<noteq> CellEmpty \<and>
   ApplyMove grid_top_only 0 CellP2 =
     (set_cell grid_top_only 5 0 CellP2, evaluate (set_cell grid_top_only 5 0 CellP2) 5 0 CellP2, None)"
  by code_simp

lemma grid_top_only_not_played: "played ms \<noteq> grid_top_only"
proof
  assume "played ms = grid_top_only"
  then have "settled_col grid_top_only 0" using played_invariant(2)[of 0 ms] by simp
  moreover have "cell grid_top_only 0 0 \<noteq> CellEmpty" "cell grid_top_only 1 0 = CellEmpty"
    by (simp_all add: cell_def grid_top_only_def)
  ultimately show False unfolding settled_col_def by force
qed

text \<open>
  C8 (amended).  \<open>ApplyMove\<close> has no hidden state, but it writes into the grid it is
  called on: after a call that fails the receiver is unchanged; after a call that
  succeeds the receiver is the grid with the mark placed, the same grid the returned
  \<open>MoveResult\<close> carries, and it differs from the grid before when the mark is not
  \<open>CellEmpty\<close>.  A lookahead has to run on a copy; \<open>CopyBoard\<close> returns a grid equal to
  its argument.
\<close>

theorem ApplyMove_writes_receiver:
  "(snd (snd (ApplyMove b col p)) \<noteq> None \<longrightarrow> fst (ApplyMove b col p) = b) \<and>
   (snd (snd (ApplyMove b col p)) = None \<longrightarrow>
      MoveResult.Board (fst (snd (ApplyMove b col p))) = fst (ApplyMove b col p) \<and>
      (\<exists>row. 0 \<le> row \<and> row < Rows \<and> cell b row col = CellEmpty \<and>
             fst (ApplyMove b col p) = set_cell b row col p)) \<and>
   (snd (snd (ApplyMove b col p)) = None \<and> wf_Board b \<and> p \<noteq> CellEmpty \<longrightarrow>
      fst (ApplyMove b col p) \<noteq> b) \<and>
   (wf_Board b \<longrightarrow> CopyBoard b = b)"
proof (cases rule: ApplyMove_cases[where b = b and col = col and p = p])
  case invalid
  then show ?thesis by (simp add: CopyBoard_id)
next
  case full
  then show ?thesis by (simp add: CopyBoard_id)
next
  case (placed r)
  have "set_cell b r col p \<noteq> b" if "wf_Board b" "p \<noteq> CellEmpty"
  proof
    assume "set_cell b r col p = b"
    then have "cell (set_cell b r col p) r col = cell b r col" by simp
    with that placed show False by (simp add: cell_set_cell)
  qed
  with placed show ?thesis by (auto simp: CopyBoard_id evaluate_Board)
qed

text \<open>
  C8 as stated fails: the move into column 3 of the empty grid succeeds and leaves the
  receiver different from the empty grid.
\<close>

theorem ApplyMove_receiver_changed:
  "snd (snd (ApplyMove ZeroBoard 3 CellP1)) = None \<and> fst (ApplyMove ZeroBoard 3 CellP1) \<noteq> ZeroBoard"
  by code_simp

text \<open>C8, the amended claim on the empty grid: a rejected and an accepted move.\<close>

theorem ApplyMove_writes_receiver_witness:
  "snd (snd (ApplyMove ZeroBoard 7 CellP1)) \<noteq> None \<and> fst (ApplyMove ZeroBoard 7 CellP1) = ZeroBoard \<and>
   snd (snd (ApplyMove ZeroBoard 3 CellP1)) = None \<and> wf_Board ZeroBoard \<and> CellP1 \<noteq> CellEmpty \<and>
   MoveResult.Board (fst (snd (ApplyMove ZeroBoard 3 CellP1))) = fst (ApplyMove ZeroBoard 3 CellP1) \<and>
   fst (ApplyMove ZeroBoard 3 CellP1) \<noteq> ZeroBoard \<and>
   CopyBoard ZeroBoard = ZeroBoard"
proof -
  have e1: "snd (snd (ApplyMove ZeroBoard 7 CellP1)) \<noteq> None" by (simp add: ApplyMove_def)
  have e2: "snd (snd (ApplyMove ZeroBoard 3 CellP1)) = None" by code_simp
  have n: "CellP1 \<noteq> CellEmpty" by simp
  show ?thesis
    using ApplyMove_writes_receiver[of ZeroBoard 7 CellP1] ApplyMove_writes_receiver[of ZeroBoard 3 CellP1] e1 e2 n wf_ZeroBoard
    by blast
qed

text \<open>
  C9 (the code departs from the claim).  The claim: a full grid with no line of four
  reports a draw and no winner.  On \<open>grid_one_cell_left\<close> mark 2 plays the last cell,
  column 2.  The grid is then full and holds no line of four of either mark, yet the
  engine reports mark 2 as the winner, with no draw flag, and a list of cells that
  visits \<open>(0,2)\<close> and \<open>(0,3)\<close> twice: the second walk of \<^verbatim>\<open>winningCoords\<close> walks forward again
  through the placed cell, so three cells in a row with the placed one in the middle
  count as five.
\<close>

theorem ApplyMove_full_grid_false_winner:
  "ApplyMove grid_one_cell_left 2 CellP2 =
     (grid_full,
      \<lparr>MoveResult.Board = grid_full, Winner = CellP2, IsDraw = False,
       Winning = [(0, 2), (0, 3), (0, 1), (0, 2), (0, 3)]\<rparr>,
      None) \<and>
   isDraw_loop grid_full 0 \<and>
   \<not> four_in_line grid_full CellP1 \<and> \<not> four_in_line grid_full CellP2"
  by code_simp

section \<open>Facts about the loops of the opponent\<close>

lemma findImmediate_loop_none:
  "(\<And>c. col \<le> c \<Longrightarrow> c < Columns \<Longrightarrow> \<not> engine_win_at board player c) \<Longrightarrow> wf_Board board \<Longrightarrow>
   findImmediate_loop board player col = (-1, False)"
proof (induction board player col rule: findImmediate_loop.induct)
  case (1 board player col)
  show ?case
  proof (cases "col < Columns")
    case True
    then have nw: "\<not> engine_win_at board player col" using "1.prems" by simp
    show ?thesis
    proof (cases "canPlay board col")
      case False
      with True 1 show ?thesis by (subst findImmediate_loop.simps) simp
    next
      case cp: True
      with nw have w: "MoveResult.Winner (fst (snd (ApplyMove board col player))) \<noteq> player"
        by (simp add: engine_win_at_def)
      have "findImmediate_loop board player (col + 1) = (-1, False)"
        using True cp w "1.prems" by (intro "1.IH"(2)) (auto simp: CopyBoard_id)
      with True cp w "1.prems"(2) show ?thesis
        by (subst findImmediate_loop.simps) (simp add: CopyBoard_id)
    qed
  next
    case False
    then show ?thesis by (subst findImmediate_loop.simps) simp
  qed
qed

lemma findImmediate_loop_first:
  "col \<le> c \<Longrightarrow> c < Columns \<Longrightarrow> engine_win_at board player c \<Longrightarrow>
   (\<And>c'. col \<le> c' \<Longrightarrow> c' < c \<Longrightarrow> \<not> engine_win_at board player c') \<Longrightarrow> wf_Board board \<Longrightarrow>
   findImmediate_loop board player col = (c, True)"
proof (induction board player col rule: findImmediate_loop.induct)
  case (1 board player col)
  have lt: "col < Columns" using "1.prems" by simp
  show ?case
  proof (cases "col = c")
    case True
    with "1.prems" lt show ?thesis
      by (subst findImmediate_loop.simps) (simp add: engine_win_at_def CopyBoard_id)
  next
    case False
    then have nw: "\<not> engine_win_at board player col" and le: "col + 1 \<le> c" using "1.prems" by auto
    show ?thesis
    proof (cases "canPlay board col")
      case cp: False
      have "findImmediate_loop board player (col + 1) = (c, True)"
        using lt cp le "1.prems" by (intro "1.IH"(1)) auto
      with lt cp show ?thesis by (subst findImmediate_loop.simps) simp
    next
      case cp: True
      with nw have w: "MoveResult.Winner (fst (snd (ApplyMove board col player))) \<noteq> player"
        by (simp add: engine_win_at_def)
      have "findImmediate_loop board player (col + 1) = (c, True)"
        using lt cp w le "1.prems" by (intro "1.IH"(2)) (auto simp: CopyBoard_id)
      with lt cp w "1.prems"(5) show ?thesis
        by (subst findImmediate_loop.simps) (simp add: CopyBoard_id)
    qed
  qed
qed

lemma findImmediate_loop_no_play:
  "(\<And>c. col \<le> c \<Longrightarrow> c < Columns \<Longrightarrow> \<not> canPlay board c) \<Longrightarrow>
   findImmediate_loop board player col = (-1, False)"
proof (induction board player col rule: findImmediate_loop.induct)
  case (1 board player col)
  show ?case
  proof (cases "col < Columns")
    case True
    with 1 show ?thesis by (subst findImmediate_loop.simps) simp
  next
    case False
    then show ?thesis by (subst findImmediate_loop.simps) simp
  qed
qed

lemma fallback_loop_no_play:
  "(\<And>c. col \<le> c \<Longrightarrow> c < Columns \<Longrightarrow> \<not> canPlay board c) \<Longrightarrow> fallback_loop board col = 0"
proof (induction board col rule: fallback_loop.induct)
  case (1 board col)
  show ?case
  proof (cases "col < Columns")
    case True
    with 1 show ?thesis by (subst fallback_loop.simps) simp
  next
    case False
    then show ?thesis by (subst fallback_loop.simps) simp
  qed
qed

lemma first_playable_first:
  "i < length cols \<Longrightarrow> canPlay board (cols ! i) \<Longrightarrow> (\<And>j. j < i \<Longrightarrow> \<not> canPlay board (cols ! j)) \<Longrightarrow>
   first_playable board cols = Some (cols ! i)"
proof (induction cols arbitrary: i)
  case Nil
  then show ?case by simp
next
  case (Cons col cols)
  show ?case
  proof (cases i)
    case 0
    with Cons.prems show ?thesis by simp
  next
    case (Suc k)
    then have "\<not> canPlay board col" using Cons.prems(3)[of 0] by simp
    moreover have "first_playable board cols = Some (cols ! k)"
    proof (rule Cons.IH)
      show "k < length cols" using Cons.prems(1) Suc by simp
      show "canPlay board (cols ! k)" using Cons.prems(2) Suc by simp
      show "\<not> canPlay board (cols ! j)" if "j < k" for j
        using Cons.prems(3)[of "Suc j"] that Suc by simp
    qed
    ultimately show ?thesis using Suc by simp
  qed
qed

text \<open>
  The order of \<open>ChooseMove\<close>, on the verdict of the engine.  (1) If the engine reports a
  win of the bot's own mark in some column that can be played, the lowest such column
  is returned; (2) else, if it reports one of the adversary's mark, the lowest such
  column is returned; (3) else the first column of \<open>3, 2, 4, 1, 5, 0, 6\<close> that can be
  played is returned, so (4) column 3 if it can be played.  The adversary's mark is
  \<open>CellP2\<close> for the bot playing \<open>CellP1\<close> and \<open>CellP1\<close> for the bot playing \<open>CellP2\<close>.
\<close>

lemma ChooseMove_order_on_engine_verdict:
  assumes wf: "wf_Board board"
  shows
  "(0 \<le> c \<and> c < Columns \<and> engine_win_at board (Player b) c \<and>
      (\<forall>c'. 0 \<le> c' \<and> c' < c \<longrightarrow> \<not> engine_win_at board (Player b) c') \<longrightarrow>
      ChooseMove b board = c) \<and>
   ((\<forall>c'. 0 \<le> c' \<and> c' < Columns \<longrightarrow> \<not> engine_win_at board (Player b) c') \<and>
      0 \<le> c \<and> c < Columns \<and> engine_win_at board (opponent_of b) c \<and>
      (\<forall>c'. 0 \<le> c' \<and> c' < c \<longrightarrow> \<not> engine_win_at board (opponent_of b) c') \<longrightarrow>
      ChooseMove b board = c) \<and>
   ((\<forall>c'. 0 \<le> c' \<and> c' < Columns \<longrightarrow>
        \<not> engine_win_at board (Player b) c' \<and> \<not> engine_win_at board (opponent_of b) c') \<and>
      i < length preferred \<and> canPlay board (preferred ! i) \<and>
      (\<forall>j. j < i \<longrightarrow> \<not> canPlay board (preferred ! j)) \<longrightarrow>
      ChooseMove b board = preferred ! i) \<and>
   ((\<forall>c'. 0 \<le> c' \<and> c' < Columns \<longrightarrow>
        \<not> engine_win_at board (Player b) c' \<and> \<not> engine_win_at board (opponent_of b) c') \<and>
      canPlay board 3 \<longrightarrow>
      ChooseMove b board = 3) \<and>
   (Player b = CellP1 \<longrightarrow> opponent_of b = CellP2) \<and>
   (Player b = CellP2 \<longrightarrow> opponent_of b = CellP1)"
proof -
  have own: "ChooseMove b board = c"
    if "0 \<le> c" "c < Columns" "engine_win_at board (Player b) c"
      "\<forall>c'. 0 \<le> c' \<and> c' < c \<longrightarrow> \<not> engine_win_at board (Player b) c'" for c
  proof -
    have "findImmediate board (Player b) = (c, True)"
      unfolding findImmediate_def using that wf by (intro findImmediate_loop_first) auto
    then show ?thesis by (simp add: ChooseMove_def)
  qed
  have none: "findImmediate board player = (-1, False)"
    if "\<forall>c'. 0 \<le> c' \<and> c' < Columns \<longrightarrow> \<not> engine_win_at board player c'" for player
    unfolding findImmediate_def using that wf by (intro findImmediate_loop_none) auto
  have block: "ChooseMove b board = c"
    if "\<forall>c'. 0 \<le> c' \<and> c' < Columns \<longrightarrow> \<not> engine_win_at board (Player b) c'"
      "0 \<le> c" "c < Columns" "engine_win_at board (opponent_of b) c"
      "\<forall>c'. 0 \<le> c' \<and> c' < c \<longrightarrow> \<not> engine_win_at board (opponent_of b) c'" for c
  proof -
    have "findImmediate board (opponent_of b) = (c, True)"
      unfolding findImmediate_def using that wf by (intro findImmediate_loop_first) auto
    with none[OF that(1)] show ?thesis by (simp add: ChooseMove_def)
  qed
  have pref: "ChooseMove b board = preferred ! i"
    if "\<forall>c'. 0 \<le> c' \<and> c' < Columns \<longrightarrow>
          \<not> engine_win_at board (Player b) c' \<and> \<not> engine_win_at board (opponent_of b) c'"
      "i < length preferred" "canPlay board (preferred ! i)"
      "\<forall>j. j < i \<longrightarrow> \<not> canPlay board (preferred ! j)" for i
  proof -
    have n1: "findImmediate board (Player b) = (-1, False)" using that(1) by (intro none) auto
    have n2: "findImmediate board (opponent_of b) = (-1, False)" using that(1) by (intro none) auto
    have "first_playable board preferred = Some (preferred ! i)"
      using that by (intro first_playable_first) auto
    with n1 n2 show ?thesis by (simp add: ChooseMove_def del: first_playable.simps)
  qed
  have centre: "ChooseMove b board = 3"
    if "\<forall>c'. 0 \<le> c' \<and> c' < Columns \<longrightarrow>
          \<not> engine_win_at board (Player b) c' \<and> \<not> engine_win_at board (opponent_of b) c'"
      "canPlay board 3"
    using pref[of 0] that by simp
  show ?thesis using own block pref centre by (auto simp: opponent_of_def)
qed

section \<open>The claims about the heuristic opponent\<close>

text \<open>
  C7 (the code departs from the claim).  The claim: the own winning column first, else
  the column that blocks a win of the adversary, else the first column of the
  preference order that can be played, so column 3 when there is neither win nor
  threat.  \<open>ChooseMove\<close> keeps this order, but it takes win and threat from the verdict
  of the engine.  On \<open>grid_false_threat\<close> no column completes a line of four for either
  mark and column 3 can be played, yet the bot (mark 2) plays column 1: there the
  engine counts the three cells \<open>(5,0), (5,1), (5,2)\<close> of mark 1 as five.  On
  \<open>grid_win_passed\<close> column 6 completes the row \<open>(4,3) .. (4,6)\<close> of the bot's mark and no
  column completes a line for mark 1, yet the bot plays column 3: the engine does not
  see a run that lies behind the placed cell.
\<close>

theorem ChooseMove_follows_engine_verdict:
  "map (completes_line grid_false_threat CellP2) [0, 1, 2, 3, 4, 5, 6] =
     [False, False, False, False, False, False, False] \<and>
   map (completes_line grid_false_threat CellP1) [0, 1, 2, 3, 4, 5, 6] =
     [False, False, False, False, False, False, False] \<and>
   canPlay grid_false_threat 3 \<and>
   ChooseMove (NewBot CellP2) grid_false_threat = 1 \<and>
   map (completes_line grid_win_passed CellP2) [0, 1, 2, 3, 4, 5, 6] =
     [False, False, False, False, False, False, True] \<and>
   map (completes_line grid_win_passed CellP1) [0, 1, 2, 3, 4, 5, 6] =
     [False, False, False, False, False, False, False] \<and>
   ChooseMove (NewBot CellP2) grid_win_passed = 3"
  by code_simp

text \<open>
  C10.  On a grid whose top row has no empty cell \<open>ChooseMove\<close> returns column 0.  It is
  a total function: every loop of it has its termination proof.
\<close>

theorem ChooseMove_full_grid:
  "(\<forall>c. 0 \<le> c \<and> c < Columns \<longrightarrow> cell board 0 c \<noteq> CellEmpty) \<Longrightarrow> ChooseMove b board = 0"
proof -
  assume a: "\<forall>c. 0 \<le> c \<and> c < Columns \<longrightarrow> cell board 0 c \<noteq> CellEmpty"
  then have np: "\<And>c. 0 \<le> c \<Longrightarrow> c < Columns \<Longrightarrow> \<not> canPlay board c"
    by (simp add: canPlay_def)
  have f: "findImmediate board player = (-1, False)" for player
    unfolding findImmediate_def using np by (intro findImmediate_loop_no_play) auto
  have p: "first_playable board preferred = None" using np by simp
  have fb: "fallback_loop board 0 = 0" using np by (intro fallback_loop_no_play) auto
  show ?thesis by (simp add: ChooseMove_def f p fb del: first_playable.simps)
qed

text \<open>C10 on a full grid.\<close>

theorem ChooseMove_full_grid_witness:
  "map (cell grid_full 0) [0, 1, 2, 3, 4, 5, 6] = [1, 2, 2, 2, 1, 2, 2] \<and>
   ChooseMove (NewBot CellP2) grid_full = 0"
proof -
  have m: "map (cell grid_full 0) [0, 1, 2, 3, 4, 5, 6] = [1, 2, 2, 2, 1, 2, 2]"
    by (simp add: grid_full_def cell_def)
  have h: "\<forall>c. 0 \<le> c \<and> c < Columns \<longrightarrow> cell grid_full 0 c \<noteq> CellEmpty"
    unfolding all_cols using m by simp
  with ChooseMove_full_grid[of grid_full "NewBot CellP2"] m show ?thesis by blast
qed

section \<open>Facts about the registry\<close>

lemmas registry_defs =
  registry_waiting_def registry_paired_def registry_forfeited_def registry_self_paired_def
  registry_bot_game_def registry_bot_only_def run_def NewManager_def AssignPlayer_def
  StartBotGame_def unfinished_game_def SweepDisconnects_def stale_def forfeit_def Sub_def
  visit_two_def visit_bot_first_def visit_human_first_def visit_bot_def NewBot_def Let_def

lemmas session_defs =
  session_status_def session_turn_def session_winner_def participant_def session_humans_def
  session_stale_def

lemma ApplyMove_error_unchanged:
  "snd (snd (ApplyMove b col p)) = Some e \<Longrightarrow> fst (ApplyMove b col p) = b"
  by (cases rule: ApplyMove_cases[where b = b and col = col and p = p]) auto

lemma games_upd_same:
  "games m key = Some g \<Longrightarrow> m\<lparr>games := (games m)(key \<mapsto> g)\<rparr> = m"
  by (simp add: fun_upd_idem)

lemma HandleMove_error_unchanged:
  assumes "snd (snd (fst (HandleMove m now1 now2 mv))) \<noteq> None"
  shows "snd (HandleMove m now1 now2 mv) = m"
proof (cases "games m (GameID mv)")
  case None
  then show ?thesis by (simp add: HandleMove_def)
next
  case (Some g)
  show ?thesis
  proof (cases "Status g = StatusFinished")
    case True
    with Some show ?thesis by (simp add: HandleMove_def)
  next
    case nf: False
    show ?thesis
    proof (cases "Players g (Move.Username mv)")
      case None
      with Some nf show ?thesis by (simp add: HandleMove_def)
    next
      case (Some pl)
      note pl = Some
      show ?thesis
      proof (cases "Turn g \<noteq> Slot pl")
        case True
        with \<open>games m (GameID mv) = Some g\<close> nf pl show ?thesis by (simp add: HandleMove_def)
      next
        case turn: False
        obtain b' res err where am: "ApplyMove (GameState.Board g) (Column mv) (Slot pl) = (b', res, err)"
          by (cases "ApplyMove (GameState.Board g) (Column mv) (Slot pl)") auto
        show ?thesis
        proof (cases err)
          case None
          with assms \<open>games m (GameID mv) = Some g\<close> nf pl turn am show ?thesis
            by (simp add: HandleMove_def Let_def split: if_splits)
        next
          case (Some e)
          with am have "b' = GameState.Board g"
            using ApplyMove_error_unchanged[of "GameState.Board g" "Column mv" "Slot pl" e] by simp
          with Some \<open>games m (GameID mv) = Some g\<close> nf pl turn am show ?thesis
            by (simp add: HandleMove_def Let_def games_upd_same)
        qed
      qed
    qed
  qed
qed





lemma waiting_AssignPlayer:
  "waiting (snd (AssignPlayer m newID now1 now2 username)) = Some p \<Longrightarrow>
   waiting m = Some p \<or> Slot p = CellP1 \<and> \<not> IsBot p"
  by (auto simp: AssignPlayer_def Let_def split: option.splits prod.splits)

lemma waiting_StartBotGame: "waiting (snd (StartBotGame m newID now1 now2 human)) = waiting m"
  by (auto simp: StartBotGame_def Let_def split: option.splits prod.splits)

lemma waiting_HandleMove: "waiting (snd (HandleMove m now1 now2 mv)) = waiting m"
  by (auto simp: HandleMove_def fire_onFinish_def Let_def split: option.splits prod.splits)

lemma waiting_Abandon: "waiting (Abandon m username) = Some p \<Longrightarrow> waiting m = Some p"
  by (auto simp: Abandon_def Let_def split: option.splits if_splits)

lemma waiting_MarkDisconnected: "waiting (MarkDisconnected m now username) = waiting m"
  by (auto simp: MarkDisconnected_def split: option.splits)

lemma waiting_SweepDisconnects: "waiting (SweepDisconnects m now visit) = waiting m"
  by (simp add: SweepDisconnects_def)

lemma waiting_exec_op:
  "waiting (exec_op m op) = Some p \<Longrightarrow> waiting m = Some p \<or> Slot p = CellP1 \<and> \<not> IsBot p"
proof (cases op)
  case (OpAssignPlayer newID now1 now2 username)
  then show "waiting (exec_op m op) = Some p \<Longrightarrow> ?thesis"
    using waiting_AssignPlayer[of m newID now1 now2 username p] by simp
next
  case (OpStartBotGame newID now1 now2 human)
  then show "waiting (exec_op m op) = Some p \<Longrightarrow> ?thesis" by (simp add: waiting_StartBotGame)
next
  case (OpHandleMove now1 now2 mv)
  then show "waiting (exec_op m op) = Some p \<Longrightarrow> ?thesis" by (simp add: waiting_HandleMove)
next
  case (OpAbandon username)
  then show "waiting (exec_op m op) = Some p \<Longrightarrow> ?thesis"
    using waiting_Abandon[of m username p] by simp
next
  case (OpMarkDisconnected now username)
  then show "waiting (exec_op m op) = Some p \<Longrightarrow> ?thesis" by (simp add: waiting_MarkDisconnected)
next
  case (OpSweepDisconnects now visit)
  then show "waiting (exec_op m op) = Some p \<Longrightarrow> ?thesis" by (simp add: waiting_SweepDisconnects)
qed

lemma waiting_run:
  "(\<And>q. waiting m = Some q \<Longrightarrow> Slot q = CellP1 \<and> \<not> IsBot q) \<Longrightarrow>
   waiting (run m ops) = Some p \<Longrightarrow> Slot p = CellP1 \<and> \<not> IsBot p"
proof (induction ops arbitrary: m)
  case Nil
  then show ?case by (simp add: run_def)
next
  case (Cons op ops)
  have step: "Slot q = CellP1 \<and> \<not> IsBot q" if "waiting (exec_op m op) = Some q" for q
    using waiting_exec_op[OF that] Cons.prems(1) by blast
  have "waiting (run (exec_op m op) ops) = Some p" using Cons.prems(2) by (simp add: run_def)
  with Cons.IH[of "exec_op m op"] step show ?case by blast
qed

lemma waiting_reachable:
  "waiting (run (NewManager window callback) ops) = Some p \<Longrightarrow> Slot p = CellP1 \<and> \<not> IsBot p"
  by (rule waiting_run[of "NewManager window callback"]) (simp_all add: NewManager_def)

section \<open>The claims about the session registry\<close>

text \<open>
  C3 (amended).  \<open>HandleMove\<close> returns \<open>ErrInvalidTurn\<close> when the session id is unknown;
  \<open>ErrGameFinished\<close> when the session is known and finished, whoever sends the move;
  \<open>ErrInvalidTurn\<close> when the session is not finished and the identity is not a
  participant of it or its mark is not to move; and the error of the grid engine,
  unchanged, when the engine rejects the column.  Whenever it returns an error the
  registry after the call is the registry before: every session keeps its grid, status,
  turn, winner and timestamps.
\<close>

theorem HandleMove_errors_leave_registry:
  "(games m (GameID mv) = None \<longrightarrow>
      fst (HandleMove m now1 now2 mv) = (ZeroMoveResult, None, Some ErrInvalidTurn)) \<and>
   (games m (GameID mv) = Some g \<and> Status g = StatusFinished \<longrightarrow>
      fst (HandleMove m now1 now2 mv) = (ZeroMoveResult, Some g, Some ErrGameFinished)) \<and>
   (games m (GameID mv) = Some g \<and> Status g \<noteq> StatusFinished \<and>
      Players g (Move.Username mv) = None \<longrightarrow>
      fst (HandleMove m now1 now2 mv) = (ZeroMoveResult, Some g, Some ErrInvalidTurn)) \<and>
   (games m (GameID mv) = Some g \<and> Status g \<noteq> StatusFinished \<and>
      Players g (Move.Username mv) = Some pl \<and> Turn g \<noteq> Slot pl \<longrightarrow>
      fst (HandleMove m now1 now2 mv) = (ZeroMoveResult, Some g, Some ErrInvalidTurn)) \<and>
   (games m (GameID mv) = Some g \<and> Status g \<noteq> StatusFinished \<and>
      Players g (Move.Username mv) = Some pl \<and> Turn g = Slot pl \<and>
      snd (snd (ApplyMove (GameState.Board g) (Column mv) (Slot pl))) = Some e \<longrightarrow>
      fst (HandleMove m now1 now2 mv) = (ZeroMoveResult, Some g, Some e)) \<and>
   (snd (snd (fst (HandleMove m now1 now2 mv))) \<noteq> None \<longrightarrow> snd (HandleMove m now1 now2 mv) = m)"
proof (intro conjI impI)
  assume "games m (GameID mv) = None"
  then show "fst (HandleMove m now1 now2 mv) = (ZeroMoveResult, None, Some ErrInvalidTurn)"
    by (simp add: HandleMove_def)
next
  assume "games m (GameID mv) = Some g \<and> Status g = StatusFinished"
  then show "fst (HandleMove m now1 now2 mv) = (ZeroMoveResult, Some g, Some ErrGameFinished)"
    by (simp add: HandleMove_def)
next
  assume "games m (GameID mv) = Some g \<and> Status g \<noteq> StatusFinished \<and>
      Players g (Move.Username mv) = None"
  then show "fst (HandleMove m now1 now2 mv) = (ZeroMoveResult, Some g, Some ErrInvalidTurn)"
    by (simp add: HandleMove_def)
next
  assume "games m (GameID mv) = Some g \<and> Status g \<noteq> StatusFinished \<and>
      Players g (Move.Username mv) = Some pl \<and> Turn g \<noteq> Slot pl"
  then show "fst (HandleMove m now1 now2 mv) = (ZeroMoveResult, Some g, Some ErrInvalidTurn)"
    by (simp add: HandleMove_def)
next
  assume a: "games m (GameID mv) = Some g \<and> Status g \<noteq> StatusFinished \<and>
      Players g (Move.Username mv) = Some pl \<and> Turn g = Slot pl \<and>
      snd (snd (ApplyMove (GameState.Board g) (Column mv) (Slot pl))) = Some e"
  then have "fst (ApplyMove (GameState.Board g) (Column mv) (Slot pl)) = GameState.Board g"
    by (intro ApplyMove_error_unchanged) auto
  with a show "fst (HandleMove m now1 now2 mv) = (ZeroMoveResult, Some g, Some e)"
    by (simp add: HandleMove_def Let_def split_beta)
next
  assume "snd (snd (fst (HandleMove m now1 now2 mv))) \<noteq> None"
  then show "snd (HandleMove m now1 now2 mv) = m" by (rule HandleMove_error_unchanged)
qed

text \<open>
  C3 as stated fails: in a finished session a move of an identity that is not a
  participant, and a move of the participant whose mark is not to move, are both
  answered with \<open>ErrGameFinished\<close>, not \<open>ErrInvalidTurn\<close>.
\<close>

theorem HandleMove_finished_before_turn:
  "session_status registry_forfeited ''g1'' = Some StatusFinished \<and>
   participant registry_forfeited ''g1'' ''carol'' = None \<and>
   snd (snd (fst (HandleMove registry_forfeited 2000 2000
      \<lparr>Move.Username = ''carol'', GameID = ''g1'', Column = 3\<rparr>))) = Some ErrGameFinished \<and>
   participant registry_forfeited ''g1'' ''bob'' =
     Some \<lparr>Player.Username = ''bob'', Slot = CellP2, IsBot = False\<rparr> \<and>
   session_turn registry_forfeited ''g1'' = Some CellP1 \<and>
   snd (snd (fst (HandleMove registry_forfeited 2000 2000
      \<lparr>Move.Username = ''bob'', GameID = ''g1'', Column = 3\<rparr>))) = Some ErrGameFinished"
  by (simp add: registry_defs session_defs HandleMove_def)

text \<open>
  C3, the amended claim on a paired session: an unknown session id, a stranger, the
  participant not to move, a column outside the grid, and a move after the end.
\<close>

theorem HandleMove_errors_leave_registry_witness:
  "session_status registry_paired ''g1'' = Some StatusActive \<and>
   session_turn registry_paired ''g1'' = Some CellP1 \<and>
   participant registry_paired ''g1'' ''carol'' = None \<and>
   participant registry_paired ''g1'' ''bob'' = Some \<lparr>Player.Username = ''bob'', Slot = CellP2, IsBot = False\<rparr> \<and>
   participant registry_paired ''g1'' ''alice'' = Some \<lparr>Player.Username = ''alice'', Slot = CellP1, IsBot = False\<rparr> \<and>
   games registry_paired ''g7'' = None \<and>
   snd (snd (fst (HandleMove registry_paired 9 9 \<lparr>Move.Username = ''alice'', GameID = ''g7'', Column = 3\<rparr>))) =
     Some ErrInvalidTurn \<and>
   snd (snd (fst (HandleMove registry_paired 9 9 \<lparr>Move.Username = ''carol'', GameID = ''g1'', Column = 3\<rparr>))) =
     Some ErrInvalidTurn \<and>
   snd (snd (fst (HandleMove registry_paired 9 9 \<lparr>Move.Username = ''bob'', GameID = ''g1'', Column = 3\<rparr>))) =
     Some ErrInvalidTurn \<and>
   snd (HandleMove registry_paired 9 9 \<lparr>Move.Username = ''bob'', GameID = ''g1'', Column = 3\<rparr>) =
     registry_paired \<and>
   snd (snd (fst (HandleMove registry_paired 9 9 \<lparr>Move.Username = ''alice'', GameID = ''g1'', Column = 7\<rparr>))) =
     Some ErrInvalidCol \<and>
   snd (HandleMove registry_paired 9 9 \<lparr>Move.Username = ''alice'', GameID = ''g1'', Column = 7\<rparr>) =
     registry_paired \<and>
   session_status registry_forfeited ''g1'' = Some StatusFinished \<and>
   snd (snd (fst (HandleMove registry_forfeited 2000 2000
      \<lparr>Move.Username = ''alice'', GameID = ''g1'', Column = 3\<rparr>))) = Some ErrGameFinished"
proof -
  obtain g where g: "games registry_paired ''g1'' = Some g" "Status g = StatusActive" "Turn g = CellP1"
    "Players g ''carol'' = None"
    "Players g ''bob'' = Some \<lparr>Player.Username = ''bob'', Slot = CellP2, IsBot = False\<rparr>"
    "Players g ''alice'' = Some \<lparr>Player.Username = ''alice'', Slot = CellP1, IsBot = False\<rparr>"
    by (simp add: registry_defs)
  obtain f where f: "games registry_forfeited ''g1'' = Some f" "Status f = StatusFinished"
    by (simp add: registry_defs)
  have n: "games registry_paired ''g7'' = None" by (simp add: registry_defs)
  let ?unknown = "\<lparr>Move.Username = ''alice'', GameID = ''g7'', Column = 3\<rparr>"
  let ?carol = "\<lparr>Move.Username = ''carol'', GameID = ''g1'', Column = 3\<rparr>"
  let ?bob = "\<lparr>Move.Username = ''bob'', GameID = ''g1'', Column = 3\<rparr>"
  let ?alice7 = "\<lparr>Move.Username = ''alice'', GameID = ''g1'', Column = 7\<rparr>"
  let ?alice = "\<lparr>Move.Username = ''alice'', GameID = ''g1'', Column = 3\<rparr>"
  have s: "session_status registry_paired ''g1'' = Some StatusActive"
    "session_turn registry_paired ''g1'' = Some CellP1"
    "participant registry_paired ''g1'' ''carol'' = None"
    "participant registry_paired ''g1'' ''bob'' = Some \<lparr>Player.Username = ''bob'', Slot = CellP2, IsBot = False\<rparr>"
    "participant registry_paired ''g1'' ''alice'' = Some \<lparr>Player.Username = ''alice'', Slot = CellP1, IsBot = False\<rparr>"
    "session_status registry_forfeited ''g1'' = Some StatusFinished"
    using g f by (simp_all add: session_defs)
  have e: "snd (snd (ApplyMove (GameState.Board g) (Column ?alice7) CellP1)) = Some ErrInvalidCol"
    by (simp add: ApplyMove_def)
  have r1: "snd (snd (fst (HandleMove registry_paired 9 9 ?unknown))) = Some ErrInvalidTurn"
    using HandleMove_errors_leave_registry[of registry_paired ?unknown 9 9, THEN conjunct1] n by simp
  have r2: "snd (snd (fst (HandleMove registry_paired 9 9 ?carol))) = Some ErrInvalidTurn"
    using HandleMove_errors_leave_registry[of registry_paired ?carol 9 9 g, THEN conjunct2, THEN conjunct2, THEN conjunct1] g
    by simp
  have r3: "snd (snd (fst (HandleMove registry_paired 9 9 ?bob))) = Some ErrInvalidTurn"
    using HandleMove_errors_leave_registry[of registry_paired ?bob 9 9 g "\<lparr>Player.Username = ''bob'', Slot = CellP2, IsBot = False\<rparr>",
        THEN conjunct2, THEN conjunct2, THEN conjunct2, THEN conjunct1] g
    by simp
  have r4: "snd (HandleMove registry_paired 9 9 ?bob) = registry_paired"
    using HandleMove_errors_leave_registry[of registry_paired ?bob 9 9,
        THEN conjunct2, THEN conjunct2, THEN conjunct2, THEN conjunct2, THEN conjunct2] r3
    by simp
  have r5: "snd (snd (fst (HandleMove registry_paired 9 9 ?alice7))) = Some ErrInvalidCol"
    using HandleMove_errors_leave_registry[of registry_paired ?alice7 9 9 g "\<lparr>Player.Username = ''alice'', Slot = CellP1, IsBot = False\<rparr>"
        ErrInvalidCol,
        THEN conjunct2, THEN conjunct2, THEN conjunct2, THEN conjunct2, THEN conjunct1] g e
    by simp
  have r6: "snd (HandleMove registry_paired 9 9 ?alice7) = registry_paired"
    using HandleMove_errors_leave_registry[of registry_paired ?alice7 9 9,
        THEN conjunct2, THEN conjunct2, THEN conjunct2, THEN conjunct2, THEN conjunct2] r5
    by simp
  have r7: "snd (snd (fst (HandleMove registry_forfeited 2000 2000 ?alice))) = Some ErrGameFinished"
    using HandleMove_errors_leave_registry[of registry_forfeited ?alice 2000 2000 f, THEN conjunct2, THEN conjunct1] f
    by simp
  show ?thesis using s n r1 r2 r3 r4 r5 r6 r7 by blast
qed




text \<open>
  C5.  In a registry reached from \<open>NewManager\<close>, for an identity without an unfinished
  session: when a different identity is waiting, \<open>AssignPlayer\<close> makes an active session
  of the two, the waiting identity with mark \<open>CellP1\<close>, the new one with mark \<open>CellP2\<close>,
  the turn at \<open>CellP1\<close>; it stores the session under the new id, enters both identities
  in the index, clears the waiting slot and returns the session, the new participant
  and \<open>False\<close>.  When no one is waiting it makes the identity the waiting entry and
  returns \<open>True\<close>.
\<close>

theorem AssignPlayer_pairs_or_waits:
  assumes reach: "m = run (NewManager window callback) ops"
    and new: "unfinished_game m username = None"
  shows
  "(waiting m = Some opp \<and> Player.Username opp \<noteq> username \<longrightarrow>
      (\<exists>game.
         fst (AssignPlayer m newID now1 now2 username) =
           (Some game, Some \<lparr>Player.Username = username, Slot = CellP2, IsBot = False\<rparr>, False) \<and>
         ID game = newID \<and> Status game = StatusActive \<and> Turn game = CellP1 \<and>
         GameState.Board game = ZeroBoard \<and> GameState.Winner game = [] \<and>
         StartedAt game = now1 \<and> LastMoveAt game = now2 \<and> Bot game = None \<and>
         dom (Players game) = {Player.Username opp, username} \<and>
         Players game (Player.Username opp) = Some opp \<and> Slot opp = CellP1 \<and> \<not> IsBot opp \<and>
         Players game username = Some \<lparr>Player.Username = username, Slot = CellP2, IsBot = False\<rparr> \<and>
         games (snd (AssignPlayer m newID now1 now2 username)) newID = Some game \<and>
         userToGame (snd (AssignPlayer m newID now1 now2 username)) username = Some newID \<and>
         userToGame (snd (AssignPlayer m newID now1 now2 username)) (Player.Username opp) = Some newID \<and>
         waiting (snd (AssignPlayer m newID now1 now2 username)) = None)) \<and>
   (waiting m = None \<longrightarrow>
      fst (AssignPlayer m newID now1 now2 username) =
        (None, Some \<lparr>Player.Username = username, Slot = CellP1, IsBot = False\<rparr>, True) \<and>
      snd (AssignPlayer m newID now1 now2 username) =
        m\<lparr>waiting := Some \<lparr>Player.Username = username, Slot = CellP1, IsBot = False\<rparr>\<rparr>)"
proof (intro conjI impI)
  assume a: "waiting m = Some opp \<and> Player.Username opp \<noteq> username"
  then have slot: "Slot opp = CellP1 \<and> \<not> IsBot opp"
    using waiting_reachable[of window callback ops opp] reach by simp
  let ?game = "\<lparr>ID = newID, GameState.Board = ZeroBoard, Status = StatusActive,
                 GameState.Winner = [], StartedAt = now1, EndedAt = 0,
                 Turn = CellP1, LastMoveAt = now2,
                 Players = [Player.Username opp \<mapsto> opp,
                            username \<mapsto> \<lparr>Player.Username = username, Slot = CellP2, IsBot = False\<rparr>],
                 Bot = None\<rparr>"
  have d: "dom (Players ?game) = {Player.Username opp, username}" by auto
  show "\<exists>game.
         fst (AssignPlayer m newID now1 now2 username) =
           (Some game, Some \<lparr>Player.Username = username, Slot = CellP2, IsBot = False\<rparr>, False) \<and>
         ID game = newID \<and> Status game = StatusActive \<and> Turn game = CellP1 \<and>
         GameState.Board game = ZeroBoard \<and> GameState.Winner game = [] \<and>
         StartedAt game = now1 \<and> LastMoveAt game = now2 \<and> Bot game = None \<and>
         dom (Players game) = {Player.Username opp, username} \<and>
         Players game (Player.Username opp) = Some opp \<and> Slot opp = CellP1 \<and> \<not> IsBot opp \<and>
         Players game username = Some \<lparr>Player.Username = username, Slot = CellP2, IsBot = False\<rparr> \<and>
         games (snd (AssignPlayer m newID now1 now2 username)) newID = Some game \<and>
         userToGame (snd (AssignPlayer m newID now1 now2 username)) username = Some newID \<and>
         userToGame (snd (AssignPlayer m newID now1 now2 username)) (Player.Username opp) = Some newID \<and>
         waiting (snd (AssignPlayer m newID now1 now2 username)) = None"
    apply (rule exI[of _ ?game])
    using a slot new d by (simp add: AssignPlayer_def Let_def)
next
  assume "waiting m = None"
  then show "fst (AssignPlayer m newID now1 now2 username) =
        (None, Some \<lparr>Player.Username = username, Slot = CellP1, IsBot = False\<rparr>, True)"
    using new by (simp add: AssignPlayer_def Let_def)
next
  assume "waiting m = None"
  then show "snd (AssignPlayer m newID now1 now2 username) =
        m\<lparr>waiting := Some \<lparr>Player.Username = username, Slot = CellP1, IsBot = False\<rparr>\<rparr>"
    using new by (simp add: AssignPlayer_def Let_def)
qed

text \<open>
  C5 on the registries \<open>registry_waiting\<close> (bob joins the waiting alice) and
  \<open>NewManager 30 True\<close> (alice is the first to arrive).
\<close>

theorem AssignPlayer_pairs_or_waits_witness:
  "waiting registry_waiting = Some \<lparr>Player.Username = ''alice'', Slot = CellP1, IsBot = False\<rparr> \<and>
   unfinished_game registry_waiting ''bob'' = None \<and>
   snd (snd (fst (AssignPlayer registry_waiting ''g1'' 5 5 ''bob''))) = False \<and>
   session_status (snd (AssignPlayer registry_waiting ''g1'' 5 5 ''bob'')) ''g1'' = Some StatusActive \<and>
   session_turn (snd (AssignPlayer registry_waiting ''g1'' 5 5 ''bob'')) ''g1'' = Some CellP1 \<and>
   participant (snd (AssignPlayer registry_waiting ''g1'' 5 5 ''bob'')) ''g1'' ''alice'' =
     Some \<lparr>Player.Username = ''alice'', Slot = CellP1, IsBot = False\<rparr> \<and>
   participant (snd (AssignPlayer registry_waiting ''g1'' 5 5 ''bob'')) ''g1'' ''bob'' =
     Some \<lparr>Player.Username = ''bob'', Slot = CellP2, IsBot = False\<rparr> \<and>
   userToGame (snd (AssignPlayer registry_waiting ''g1'' 5 5 ''bob'')) ''alice'' = Some ''g1'' \<and>
   userToGame (snd (AssignPlayer registry_waiting ''g1'' 5 5 ''bob'')) ''bob'' = Some ''g1'' \<and>
   waiting (snd (AssignPlayer registry_waiting ''g1'' 5 5 ''bob'')) = None \<and>
   waiting (NewManager 30 True) = None \<and>
   unfinished_game (NewManager 30 True) ''alice'' = None \<and>
   fst (AssignPlayer (NewManager 30 True) ''g0'' 0 0 ''alice'') =
     (None, Some \<lparr>Player.Username = ''alice'', Slot = CellP1, IsBot = False\<rparr>, True) \<and>
   waiting (snd (AssignPlayer (NewManager 30 True) ''g0'' 0 0 ''alice'')) =
     Some \<lparr>Player.Username = ''alice'', Slot = CellP1, IsBot = False\<rparr>"
proof -
  let ?alice = "\<lparr>Player.Username = ''alice'', Slot = CellP1, IsBot = False\<rparr>"
  let ?r = "AssignPlayer registry_waiting ''g1'' 5 5 ''bob''"
  have reach1: "registry_waiting = run (NewManager 30 True) [OpAssignPlayer ''g0'' 0 0 ''alice'']"
    by (simp add: registry_waiting_def)
  have reach0: "NewManager 30 True = run (NewManager 30 True) []" by (simp add: run_def)
  have w1: "waiting registry_waiting = Some ?alice" by (simp add: registry_defs)
  have n1: "unfinished_game registry_waiting ''bob'' = None" by (simp add: registry_defs)
  have w0: "waiting (NewManager 30 True) = None" by (simp add: NewManager_def)
  have n0: "unfinished_game (NewManager 30 True) ''alice'' = None" by (simp add: registry_defs)
  from AssignPlayer_pairs_or_waits[OF reach1 n1, of ?alice "''g1''" 5 5, THEN conjunct1] w1
  obtain game where game:
    "fst ?r = (Some game, Some \<lparr>Player.Username = ''bob'', Slot = CellP2, IsBot = False\<rparr>, False)"
    "Status game = StatusActive" "Turn game = CellP1"
    "Players game ''alice'' = Some ?alice"
    "Players game ''bob'' = Some \<lparr>Player.Username = ''bob'', Slot = CellP2, IsBot = False\<rparr>"
    "games (snd ?r) ''g1'' = Some game"
    "userToGame (snd ?r) ''bob'' = Some ''g1''"
    "userToGame (snd ?r) ''alice'' = Some ''g1''"
    "waiting (snd ?r) = None"
    by auto
  have p1: "snd (snd (fst ?r)) = False"
    "session_status (snd ?r) ''g1'' = Some StatusActive"
    "session_turn (snd ?r) ''g1'' = Some CellP1"
    "participant (snd ?r) ''g1'' ''alice'' = Some ?alice"
    "participant (snd ?r) ''g1'' ''bob'' = Some \<lparr>Player.Username = ''bob'', Slot = CellP2, IsBot = False\<rparr>"
    using game by (simp_all add: session_defs)
  have p0: "fst (AssignPlayer (NewManager 30 True) ''g0'' 0 0 ''alice'') = (None, Some ?alice, True)"
    "waiting (snd (AssignPlayer (NewManager 30 True) ''g0'' 0 0 ''alice'')) = Some ?alice"
    using AssignPlayer_pairs_or_waits[OF reach0 n0, of ?alice "''g0''" 0 0, THEN conjunct2] w0 by simp_all
  show ?thesis using w1 n1 w0 n0 p1 game(7,8,9) p0 by blast
qed

text \<open>
  C6 (the code departs from the claim).  The claim: the turn of every session names a
  participant of the session.  When \<open>AssignPlayer\<close> is called for the identity that is
  itself waiting, the session it makes has that identity as its only participant, with
  mark \<open>CellP2\<close>, and the turn at \<open>CellP1\<close>: no participant holds the mark to move.  The same
  holds for the session \<open>StartBotGame\<close> makes for the identity \<open>bot\<close>.
\<close>

theorem AssignPlayer_self_pairing_breaks_turn:
  "(\<exists>g. games registry_self_paired ''g1'' = Some g \<and> Status g = StatusActive \<and> Turn g = CellP1 \<and>
        dom (Players g) = {''alice''} \<and>
        Players g ''alice'' = Some \<lparr>Player.Username = ''alice'', Slot = CellP2, IsBot = False\<rparr> \<and>
        \<not> turn_names_participant g) \<and>
   (\<exists>g. games registry_bot_only ''g1'' = Some g \<and> Status g = StatusActive \<and> Turn g = CellP1 \<and>
        dom (Players g) = {''bot''} \<and>
        Players g ''bot'' = Some \<lparr>Player.Username = ''bot'', Slot = CellP2, IsBot = True\<rparr> \<and>
        \<not> turn_names_participant g)"
  by (auto simp: registry_defs turn_names_participant_def split: if_splits)

section \<open>The grids of C1, C7 and C9 in play\<close>

text \<open>
  Both grids are met in play.  After the moves 0, 4, 1, 5, 2, 0 of alice and bob the
  session holds \<open>grid_three_in_row\<close> with alice (mark 1) to move; her move into column 3
  completes the bottom row, and the session stays active with bob to move.
\<close>

lemma grid_three_in_row_reached:
  "session_board (run registry_paired (play_ops ''g1'' ''alice'' ''bob'' [0, 4, 1, 5, 2, 0])) ''g1'' =
     Some grid_three_in_row \<and>
   session_status (run registry_paired (play_ops ''g1'' ''alice'' ''bob'' [0, 4, 1, 5, 2, 0])) ''g1'' =
     Some StatusActive \<and>
   session_turn (run registry_paired (play_ops ''g1'' ''alice'' ''bob'' [0, 4, 1, 5, 2, 0])) ''g1'' =
     Some CellP1"
  by code_simp

lemma grid_three_in_row_session_goes_on:
  "session_status (run registry_paired (play_ops ''g1'' ''alice'' ''bob'' [0, 4, 1, 5, 2, 0, 3])) ''g1'' =
     Some StatusActive \<and>
   session_turn (run registry_paired (play_ops ''g1'' ''alice'' ''bob'' [0, 4, 1, 5, 2, 0, 3])) ''g1'' =
     Some CellP2"
  by code_simp

text \<open>
  After the 41 moves of \<open>game_41\<close> the session holds \<open>grid_one_cell_left\<close>, still active,
  with bob (mark 2) to move; his move into column 2 ends the session with bob as the
  winner.
\<close>

lemma grid_one_cell_left_reached:
  "session_board (run registry_paired (play_ops ''g1'' ''alice'' ''bob'' game_41)) ''g1'' =
     Some grid_one_cell_left \<and>
   session_status (run registry_paired (play_ops ''g1'' ''alice'' ''bob'' game_41)) ''g1'' =
     Some StatusActive \<and>
   session_turn (run registry_paired (play_ops ''g1'' ''alice'' ''bob'' game_41)) ''g1'' = Some CellP2"
  by code_simp

lemma grid_one_cell_left_session_won:
  "session_status (run registry_paired (play_ops ''g1'' ''alice'' ''bob'' (game_41 @ [2]))) ''g1'' =
     Some StatusFinished \<and>
   session_winner (run registry_paired (play_ops ''g1'' ''alice'' ''bob'' (game_41 @ [2]))) ''g1'' =
     Some ''bob''"
  by code_simp

text \<open>
  The two grids of C7 are met in games against the opponent, whose moves are those
  \<open>ChooseMove\<close> gives: \<open>grid_false_threat\<close> after the human's moves 0 and 2,
  \<open>grid_win_passed\<close> after the human's moves 4, 5, 3, 6, 4 and 3.  In the registry both
  sessions are active with the opponent to move.
\<close>

lemma grid_false_threat_reached:
  "fst (ApplyMove (bot_game ZeroBoard [0]) 2 CellP1) = grid_false_threat \<and>
   session_board (run registry_bot_game (play_ops ''g1'' ''alice'' ''bot'' [0, 3, 2])) ''g1'' =
     Some grid_false_threat \<and>
   session_status (run registry_bot_game (play_ops ''g1'' ''alice'' ''bot'' [0, 3, 2])) ''g1'' =
     Some StatusActive \<and>
   session_turn (run registry_bot_game (play_ops ''g1'' ''alice'' ''bot'' [0, 3, 2])) ''g1'' =
     Some CellP2"
  by code_simp

lemma grid_win_passed_reached:
  "fst (ApplyMove (bot_game ZeroBoard [4, 5, 3, 6, 4]) 3 CellP1) = grid_win_passed \<and>
   session_board (run registry_bot_game (play_ops ''g1'' ''alice'' ''bot'' game_11)) ''g1'' =
     Some grid_win_passed \<and>
   session_status (run registry_bot_game (play_ops ''g1'' ''alice'' ''bot'' game_11)) ''g1'' =
     Some StatusActive \<and>
   session_turn (run registry_bot_game (play_ops ''g1'' ''alice'' ''bot'' game_11)) ''g1'' =
     Some CellP2"
  by code_simp

end
